theory Spec2Isabelle
  imports Complex_Main "HOL-Library.Product_Lexorder"
begin

section \<open>Car business analytics dashboard: records, upserts, import and aggregation\<close>

text \<open>
  The development follows the three source files: \<^verbatim>\<open>database.py\<close> (the two tables),
  \<^verbatim>\<open>app.py\<close> (manual entry and the aggregation shown on the dashboard) and
  \<^verbatim>\<open>import_excel.py\<close> (the bulk importer).

  Conventions. Python's unbounded integers are \<open>int\<close>. The \<^verbatim>\<open>Float\<close> columns and the
  floating-point cells of a data frame are exact rationals (\<open>rat\<close>): rounding of binary
  floating point is not modelled, the special values are (see \<open>fval\<close> below). A nullable
  column or a cell that may be NaN is an \<open>option\<close>. Exceptions are values of \<open>error\<close>.
\<close>

subsection \<open>Dates\<close>

text \<open>A \<^verbatim>\<open>datetime.date\<close>; a \<^verbatim>\<open>datetime.datetime\<close> (and its subclass, the data frame's
  timestamp) carries a date and a time of day.\<close>

record cal_date =
  year :: nat
  month :: nat
  day :: nat

record datetime =
  dt_date :: cal_date
  hour :: nat
  minute :: nat
  second :: nat

datatype error = ValueError | TypeError | IntegrityError

definition date_key :: "cal_date \<Rightarrow> nat \<times> nat \<times> nat" where
  "date_key d = (year d, month d, day d)"

text \<open>\<^verbatim>\<open>pd.to_datetime(...).dt.to_period('M')\<close>: the calendar month of a date.\<close>

definition to_period_M :: "cal_date \<Rightarrow> nat \<times> nat" where
  "to_period_M d = (year d, month d)"

subsection \<open>Numbers\<close>

text \<open>\<^verbatim>\<open>int(x)\<close> on a float truncates toward zero.\<close>

definition py_int :: "rat \<Rightarrow> int" where
  "py_int x = (if 0 \<le> x then \<lfloor>x\<rfloor> else \<lceil>x\<rceil>)"

text \<open>A float of a numeric column: a finite value, an infinity or NaN.\<close>

datatype fval = Fin rat | PInf | NInf | NaN

text \<open>Element-wise true division of two integer columns: a zero divisor gives NaN for
  a zero dividend and a signed infinity otherwise; nothing is raised.\<close>

definition col_div :: "int \<Rightarrow> int \<Rightarrow> fval" where
  "col_div a b =
     (if b = 0 then (if a = 0 then NaN else if 0 < a then PInf else NInf)
      else Fin (of_int a / of_int b))"

text \<open>Multiplication of a float by a positive finite constant.\<close>

fun col_scale :: "fval \<Rightarrow> rat \<Rightarrow> fval" where
  "col_scale (Fin x) k = Fin (x * k)"
| "col_scale PInf k = PInf"
| "col_scale NInf k = NInf"
| "col_scale NaN k = NaN"

text \<open>\<^verbatim>\<open>.fillna(v)\<close> on a float column replaces NaN, and only NaN.\<close>

fun fillna_f :: "rat \<Rightarrow> fval \<Rightarrow> fval" where
  "fillna_f v NaN = Fin v"
| "fillna_f v x = x"

text \<open>\<^verbatim>\<open>.fillna(0)\<close> on a cell that may be absent.\<close>

definition fillna :: "'a \<Rightarrow> 'a option \<Rightarrow> 'a" where
  "fillna v c = (case c of None \<Rightarrow> v | Some x \<Rightarrow> x)"

subsection \<open>The tables of \<^verbatim>\<open>database.py\<close>\<close>

text \<open>Both mapped classes have an autoincrement \<^verbatim>\<open>id\<close> (unset until the object is
  flushed) and a \<^verbatim>\<open>date\<close> that is not nullable and unique.\<close>

record base =
  rid :: "nat option"
  date :: cal_date

record DailyRecord = base +
  ride_count :: int
  earnings :: int
  cng_expenses :: int
  driver_pass_subscription :: "rat option"
  indrive_topup :: "rat option"
  odometer_start :: "rat option"
  odometer_end :: "rat option"
  daily_net :: int

record OtherExpense = base +
  expenses :: "rat option"
  months :: "string option"
  car_emi :: "rat option"
  pg_rent :: "rat option"

text \<open>\<^verbatim>\<open>x or 0\<close> on a nullable number.\<close>

definition or0 :: "rat option \<Rightarrow> rat" where
  "or0 c = (case c of None \<Rightarrow> 0 | Some x \<Rightarrow> x)"

definition total_expenses :: "DailyRecord \<Rightarrow> rat" where
  "total_expenses r =
     of_int (cng_expenses r) + or0 (driver_pass_subscription r) + or0 (indrive_topup r)"

definition total_other_expenses :: "OtherExpense \<Rightarrow> rat" where
  "total_other_expenses r = or0 (expenses r) + or0 (car_emi r) + or0 (pg_rent r)"

subsection \<open>The data frame of \<^verbatim>\<open>load_data\<close>\<close>

record df_row =
  df_date :: cal_date
  df_ride_count :: int
  df_earnings :: int
  df_cng_expenses :: int
  df_driver_pass_subscription :: rat
  df_indrive_topup :: rat
  df_odometer_start :: "rat option"
  df_odometer_end :: "rat option"
  df_daily_net :: int

definition load_row :: "DailyRecord \<Rightarrow> df_row" where
  "load_row r = \<lparr>df_date = date r, df_ride_count = ride_count r, df_earnings = earnings r,
     df_cng_expenses = cng_expenses r,
     df_driver_pass_subscription = or0 (driver_pass_subscription r),
     df_indrive_topup = or0 (indrive_topup r),
     df_odometer_start = odometer_start r, df_odometer_end = odometer_end r,
     df_daily_net = daily_net r\<rparr>"

text \<open>\<^verbatim>\<open>session.query(DailyRecord).order_by(DailyRecord.date).all()\<close>, one frame row per
  record.\<close>

definition load_data :: "DailyRecord list \<Rightarrow> df_row list" where
  "load_data tbl = map load_row (sort_key (\<lambda>r. date_key (date r)) tbl)"

subsection \<open>Summary metrics (\<^verbatim>\<open>app.py\<close>, lines 151 to 159)\<close>



definition total_profit :: "df_row list \<Rightarrow> int" where
  "total_profit filtered_df = sum_list (map df_daily_net filtered_df)"


subsection \<open>Profit margin series (\<^verbatim>\<open>app.py\<close>, line 320)\<close>

text \<open>\<^verbatim>\<open>(profit_df["daily_net"] / profit_df["earnings"] * 100).fillna(0)\<close>, row by row.\<close>

definition profit_margin :: "df_row \<Rightarrow> fval" where
  "profit_margin r = fillna_f 0 (col_scale (col_div (df_daily_net r) (df_earnings r)) 100)"

definition profit_margin_series :: "df_row list \<Rightarrow> fval list" where
  "profit_margin_series filtered_df = map profit_margin filtered_df"

subsection \<open>Monthly summary (\<^verbatim>\<open>app.py\<close>, lines 178 to 223)\<close>

text \<open>The frame of \<^verbatim>\<open>load_other_expenses\<close>: the columns are read as stored, so an amount
  may be NaN.\<close>

record other_df_row =
  od_date :: cal_date
  od_expenses :: "rat option"
  od_months :: "string option"
  od_car_emi :: "rat option"
  od_pg_rent :: "rat option"
  od_total :: rat

definition load_other_row :: "OtherExpense \<Rightarrow> other_df_row" where
  "load_other_row r = \<lparr>od_date = date r, od_expenses = expenses r, od_months = months r,
     od_car_emi = car_emi r, od_pg_rent = pg_rent r, od_total = total_other_expenses r\<rparr>"

definition load_other_expenses :: "OtherExpense list \<Rightarrow> other_df_row list" where
  "load_other_expenses tbl = map load_other_row (sort_key (\<lambda>r. date_key (date r)) tbl)"

text \<open>The sum of a float column skips NaN.\<close>

definition nansum :: "rat option list \<Rightarrow> rat" where
  "nansum xs = sum_list (map or0 xs)"

text \<open>\<^verbatim>\<open>expense_monthly.groupby('month').agg(...)\<close>: one row per month that has other
  expenses, the months in ascending order.\<close>

record expense_row =
  e_month :: "nat \<times> nat"
  e_car_emi :: rat
  e_pg_rent :: rat
  e_expenses :: rat

definition expense_group :: "other_df_row list \<Rightarrow> nat \<times> nat \<Rightarrow> other_df_row list" where
  "expense_group other_expenses_df m =
     filter (\<lambda>r. to_period_M (od_date r) = m) other_expenses_df"

definition expense_summary :: "other_df_row list \<Rightarrow> expense_row list" where
  "expense_summary other_expenses_df =
     map (\<lambda>m. \<lparr>e_month = m,
                e_car_emi = nansum (map od_car_emi (expense_group other_expenses_df m)),
                e_pg_rent = nansum (map od_pg_rent (expense_group other_expenses_df m)),
                e_expenses = nansum (map od_expenses (expense_group other_expenses_df m))\<rparr>)
       (sort (remdups (map (\<lambda>r. to_period_M (od_date r)) other_expenses_df)))"

text \<open>A row of \<^verbatim>\<open>monthly_summary\<close>. The four columns of the other expenses exist only
  when the frame of other expenses is not empty.\<close>

record monthly_row =
  m_month :: "nat \<times> nat"
  m_earnings :: int
  m_cng_expenses :: int
  m_driver_pass_subscription :: rat
  m_indrive_topup :: rat
  m_daily_net :: int
  m_ride_count :: int
  m_date :: nat
  m_total_expenses :: rat
  m_car_emi :: "rat option"
  m_pg_rent :: "rat option"
  m_expenses :: "rat option"
  m_total_all_expenses :: "rat option"
  m_net_profit :: rat

definition month_group :: "df_row list \<Rightarrow> nat \<times> nat \<Rightarrow> df_row list" where
  "month_group filtered_df m = filter (\<lambda>r. to_period_M (df_date r) = m) filtered_df"

text \<open>The row of one month: the sums of the group and the total of the daily expenses;
  then, when there are other expenses at all, the left merge on the month (a month
  without a match gets NaN, filled with 0) and the net recomputed from the earnings;
  otherwise the net is the summed \<^verbatim>\<open>daily_net\<close>.\<close>

definition monthly_row_of :: "df_row list \<Rightarrow> other_df_row list \<Rightarrow> nat \<times> nat \<Rightarrow> monthly_row" where
  "monthly_row_of filtered_df other_expenses_df m =
     (let g = month_group filtered_df m;
          earn = sum_list (map df_earnings g);
          cng = sum_list (map df_cng_expenses g);
          dp = sum_list (map df_driver_pass_subscription g);
          ind = sum_list (map df_indrive_topup g);
          dn = sum_list (map df_daily_net g);
          rc = sum_list (map df_ride_count g);
          total = of_int cng + dp + ind
      in if other_expenses_df \<noteq> [] then
           (let hit = find (\<lambda>e. e_month e = m) (expense_summary other_expenses_df);
                emi = fillna 0 (map_option e_car_emi hit);
                rent = fillna 0 (map_option e_pg_rent hit);
                misc = fillna 0 (map_option e_expenses hit);
                total_all = total + emi + rent + misc
            in \<lparr>m_month = m, m_earnings = earn, m_cng_expenses = cng,
                 m_driver_pass_subscription = dp, m_indrive_topup = ind, m_daily_net = dn,
                 m_ride_count = rc, m_date = length g, m_total_expenses = total,
                 m_car_emi = Some emi, m_pg_rent = Some rent, m_expenses = Some misc,
                 m_total_all_expenses = Some total_all,
                 m_net_profit = of_int earn - total_all\<rparr>)
         else
           \<lparr>m_month = m, m_earnings = earn, m_cng_expenses = cng,
            m_driver_pass_subscription = dp, m_indrive_topup = ind, m_daily_net = dn,
            m_ride_count = rc, m_date = length g, m_total_expenses = total,
            m_car_emi = None, m_pg_rent = None, m_expenses = None,
            m_total_all_expenses = None, m_net_profit = of_int dn\<rparr>)"

definition monthly_summary :: "df_row list \<Rightarrow> other_df_row list \<Rightarrow> monthly_row list" where
  "monthly_summary filtered_df other_expenses_df =
     (if filtered_df = [] then []
      else map (monthly_row_of filtered_df other_expenses_df)
             (sort (remdups (map (\<lambda>r. to_period_M (df_date r)) filtered_df))))"

subsection \<open>The session: identity map, pending objects, commit and rollback\<close>

text \<open>A session works on the table inside one transaction. \<open>persistent\<close> is the table as
  the session's objects show it (attribute changes made to loaded objects included),
  \<open>pending\<close> the objects passed to \<^verbatim>\<open>session.add\<close> and not yet flushed. The database
  itself changes only when \<open>commit\<close> succeeds; \<^verbatim>\<open>session.rollback()\<close> drops the session's
  state, so a caller that rolls back keeps the table it started from.\<close>

record 'r session =
  persistent :: "'r list"
  pending :: "'r list"

text \<open>\<^verbatim>\<open>session.query(C).filter_by(date=d).first()\<close>. The query reads the database, where
  pending objects are not yet present: in \<^verbatim>\<open>add_record\<close> nothing is pending when it
  runs, and the importer runs it under \<^verbatim>\<open>session.no_autoflush\<close>.\<close>

definition query_first_by_date :: "'a base_scheme list \<Rightarrow> cal_date \<Rightarrow> 'a base_scheme option" where
  "query_first_by_date tbl d = find (\<lambda>r. date r = d) tbl"

text \<open>Assigning to the attributes of the object the query returned.\<close>

fun update_first :: "('r \<Rightarrow> bool) \<Rightarrow> ('r \<Rightarrow> 'r) \<Rightarrow> 'r list \<Rightarrow> 'r list" where
  "update_first P f [] = []"
| "update_first P f (x # xs) = (if P x then f x # xs else x # update_first P f xs)"

definition next_id :: "'a base_scheme list \<Rightarrow> nat" where
  "next_id tbl = Suc (fold (\<lambda>r m. max m (case rid r of None \<Rightarrow> 0 | Some i \<Rightarrow> i)) tbl 0)"

text \<open>The flush at commit inserts the pending objects; the unique constraint on
  \<^verbatim>\<open>date\<close> rejects an insert whose date is already in the table.\<close>

fun flush_new :: "'a base_scheme list \<Rightarrow> 'a base_scheme list \<Rightarrow> error + 'a base_scheme list" where
  "flush_new tbl [] = Inr tbl"
| "flush_new tbl (r # rs) =
     (if date r \<in> set (map date tbl) then Inl IntegrityError
      else flush_new (tbl @ [r\<lparr>rid := Some (next_id tbl)\<rparr>]) rs)"

definition commit :: "'a base_scheme session \<Rightarrow> error + 'a base_scheme list" where
  "commit s = flush_new (persistent s) (pending s)"

text \<open>The step every writer of the source repeats: query the row of the date; when
  there is one, assign to its attributes, otherwise add a new object to the session.
  The flag tells which branch ran (the importer counts them).\<close>

definition upsert ::
  "'a base_scheme session \<Rightarrow> cal_date \<Rightarrow> ('a base_scheme \<Rightarrow> 'a base_scheme) \<Rightarrow> 'a base_scheme
     \<Rightarrow> 'a base_scheme session \<times> bool" where
  "upsert s d assign record =
     (case query_first_by_date (persistent s) d of
        Some existing \<Rightarrow>
          (s\<lparr>persistent := update_first (\<lambda>r. date r = d) assign (persistent s)\<rparr>, True)
      | None \<Rightarrow> (s\<lparr>pending := pending s @ [record]\<rparr>, False))"

text \<open>The eight assignments to \<^verbatim>\<open>existing\<close> and the constructor call
  \<^verbatim>\<open>DailyRecord(date=..., ...)\<close>, with the values the caller computed.\<close>

definition assign_daily ::
  "int \<Rightarrow> int \<Rightarrow> int \<Rightarrow> rat \<Rightarrow> rat \<Rightarrow> rat option \<Rightarrow> rat option \<Rightarrow> int
     \<Rightarrow> DailyRecord \<Rightarrow> DailyRecord" where
  "assign_daily rc e c dp ind os oe dn existing =
     existing\<lparr>ride_count := rc, earnings := e, cng_expenses := c,
       driver_pass_subscription := Some dp, indrive_topup := Some ind,
       odometer_start := os, odometer_end := oe, daily_net := dn\<rparr>"

definition new_daily ::
  "cal_date \<Rightarrow> int \<Rightarrow> int \<Rightarrow> int \<Rightarrow> rat \<Rightarrow> rat \<Rightarrow> rat option \<Rightarrow> rat option \<Rightarrow> int
     \<Rightarrow> DailyRecord" where
  "new_daily d rc e c dp ind os oe dn =
     \<lparr>rid = None, date = d, ride_count = rc, earnings = e, cng_expenses = c,
      driver_pass_subscription = Some dp, indrive_topup = Some ind,
      odometer_start = os, odometer_end = oe, daily_net = dn\<rparr>"

definition assign_other ::
  "rat \<Rightarrow> string option \<Rightarrow> rat \<Rightarrow> rat \<Rightarrow> OtherExpense \<Rightarrow> OtherExpense" where
  "assign_other misc note emi rent existing =
     existing\<lparr>expenses := Some misc, months := note, car_emi := Some emi,
       pg_rent := Some rent\<rparr>"

definition new_other ::
  "cal_date \<Rightarrow> rat \<Rightarrow> string option \<Rightarrow> rat \<Rightarrow> rat \<Rightarrow> OtherExpense" where
  "new_other d misc note emi rent =
     \<lparr>rid = None, date = d, expenses = Some misc, months = note, car_emi = Some emi,
      pg_rent = Some rent\<rparr>"

subsection \<open>Manual entry (\<^verbatim>\<open>app.py\<close>): \<^verbatim>\<open>add_record\<close> and \<^verbatim>\<open>add_other_expense\<close>\<close>

text \<open>\<^verbatim>\<open>odo if odo > 0 else None\<close>.\<close>

definition odo_positive :: "rat \<Rightarrow> rat option" where
  "odo_positive odo = (if odo > 0 then Some odo else None)"

text \<open>The form passes integers for ride count, earnings and CNG expenses and floats for
  the other four numbers. The result is the table after the call and the returned flag:
  on an exception the function rolls back and returns \<^verbatim>\<open>False\<close>.\<close>

definition add_record ::
  "DailyRecord list \<Rightarrow> cal_date \<Rightarrow> int \<Rightarrow> int \<Rightarrow> int \<Rightarrow> rat \<Rightarrow> rat \<Rightarrow> rat \<Rightarrow> rat
     \<Rightarrow> DailyRecord list \<times> bool" where
  "add_record tbl d rc e c driver_pass indrive odo_start odo_end =
     (let dn = of_int e - of_int c - driver_pass - indrive;
          s = fst (upsert \<lparr>persistent = tbl, pending = []\<rparr> d
                (assign_daily rc e c driver_pass indrive
                   (odo_positive odo_start) (odo_positive odo_end) (py_int dn))
                (new_daily d rc e c driver_pass indrive
                   (odo_positive odo_start) (odo_positive odo_end) (py_int dn)))
      in case commit s of Inr tbl' \<Rightarrow> (tbl', True) | Inl err \<Rightarrow> (tbl, False))"

definition add_other_expense ::
  "OtherExpense list \<Rightarrow> cal_date \<Rightarrow> rat \<Rightarrow> rat \<Rightarrow> rat \<Rightarrow> string \<Rightarrow> OtherExpense list \<times> bool" where
  "add_other_expense tbl d emi rent misc note =
     (let s = fst (upsert \<lparr>persistent = tbl, pending = []\<rparr> d
                (assign_other misc (Some note) emi rent)
                (new_other d misc (Some note) emi rent))
      in case commit s of Inr tbl' \<Rightarrow> (tbl', True) | Inl err \<Rightarrow> (tbl, False))"

subsection \<open>\<^verbatim>\<open>normalize_date\<close> (\<^verbatim>\<open>import_excel.py\<close>)\<close>

text \<open>The object in a date cell: a string, a \<^verbatim>\<open>datetime\<close> (a timestamp of the frame is
  one), a plain \<^verbatim>\<open>date\<close>, or any other object (a number, NaN, \<^verbatim>\<open>None\<close>).\<close>

datatype raw_date = RStr string | RDatetime datetime | RDate cal_date | ROther

definition is_digit :: "char \<Rightarrow> bool" where
  "is_digit c \<longleftrightarrow> c \<in> set ''0123456789''"

definition digit_val :: "char \<Rightarrow> nat" where
  "digit_val c = of_char c - 48"

definition is_leap :: "nat \<Rightarrow> bool" where
  "is_leap y \<longleftrightarrow> y mod 4 = 0 \<and> (y mod 100 \<noteq> 0 \<or> y mod 400 = 0)"

definition days_in_month :: "nat \<Rightarrow> nat \<Rightarrow> nat" where
  "days_in_month y m =
     (if m = 2 \<and> is_leap y then 29
      else [31, 28, 31, 30, 31, 30, 31, 31, 30, 31, 30, 31] ! (m - 1))"

text \<open>The check of the \<^verbatim>\<open>date\<close> constructor.\<close>

definition check_date_fields :: "nat \<Rightarrow> nat \<Rightarrow> nat \<Rightarrow> bool" where
  "check_date_fields y m d \<longleftrightarrow>
     1 \<le> y \<and> y \<le> 9999 \<and> 1 \<le> m \<and> m \<le> 12 \<and> 1 \<le> d \<and> d \<le> days_in_month y m"

text \<open>\<^verbatim>\<open>datetime.strptime(s, "%Y-%m-%d")\<close> is the standard library's. It matches the
  regular expression built from the format at the start of the string,
  \<^verbatim>\<open>(\d\d\d\d)-(1[0-2]|0[1-9]|[1-9])-(3[0-1]|[1-2]\d|0[1-9]|[1-9]| [1-9])\<close>,
  fails when nothing matches or when input remains after the match, and builds the date
  from the three numbers. Each group below lists the alternatives that match, in the
  order of the expression, with the value read and the input left.\<close>

fun match_Y :: "string \<Rightarrow> (nat \<times> string) list" where
  "match_Y (a # b # c # d # rest) =
     (if is_digit a \<and> is_digit b \<and> is_digit c \<and> is_digit d
      then [(1000 * digit_val a + 100 * digit_val b + 10 * digit_val c + digit_val d, rest)]
      else [])"
| "match_Y _ = []"

fun two_chars :: "char set \<Rightarrow> char set \<Rightarrow> string \<Rightarrow> (nat \<times> string) list" where
  "two_chars A B (a # b # rest) =
     (if a \<in> A \<and> b \<in> B then [(10 * digit_val a + digit_val b, rest)] else [])"
| "two_chars A B _ = []"

fun one_char :: "char set \<Rightarrow> string \<Rightarrow> (nat \<times> string) list" where
  "one_char A (a # rest) = (if a \<in> A then [(digit_val a, rest)] else [])"
| "one_char A _ = []"

fun blank_char :: "char set \<Rightarrow> string \<Rightarrow> (nat \<times> string) list" where
  "blank_char A (a # b # rest) =
     (if a = CHR '' '' \<and> b \<in> A then [(digit_val b, rest)] else [])"
| "blank_char A _ = []"

definition match_m :: "string \<Rightarrow> (nat \<times> string) list" where
  "match_m s = two_chars {CHR ''1''} (set ''012'') s
     @ two_chars {CHR ''0''} (set ''123456789'') s
     @ one_char (set ''123456789'') s"

definition match_d :: "string \<Rightarrow> (nat \<times> string) list" where
  "match_d s = two_chars {CHR ''3''} (set ''01'') s
     @ two_chars (set ''12'') (set ''0123456789'') s
     @ two_chars {CHR ''0''} (set ''123456789'') s
     @ one_char (set ''123456789'') s
     @ blank_char (set ''123456789'') s"

definition match_dash :: "string \<Rightarrow> string list" where
  "match_dash s = (case s of c # rest \<Rightarrow> (if c = CHR ''-'' then [rest] else []) | [] \<Rightarrow> [])"

text \<open>All ways to match the expression, the preferred one first; the matcher takes the
  first.\<close>

definition regex_matches :: "string \<Rightarrow> (nat \<times> nat \<times> nat \<times> string) list" where
  "regex_matches s =
     concat (map (\<lambda>(y, s1). concat (map (\<lambda>s2. concat (map (\<lambda>(m, s3).
       concat (map (\<lambda>s4. map (\<lambda>(d, rest). (y, m, d, rest)) (match_d s4)) (match_dash s3)))
       (match_m s2))) (match_dash s1))) (match_Y s))"

definition strptime_ymd :: "string \<Rightarrow> error + cal_date" where
  "strptime_ymd s =
     (case regex_matches s of
        [] \<Rightarrow> Inl ValueError
      | (y, m, d, rest) # _ \<Rightarrow>
          if rest \<noteq> [] then Inl ValueError
          else if \<not> check_date_fields y m d then Inl ValueError
          else Inr \<lparr>year = y, month = m, day = d\<rparr>)"

fun normalize_date :: "raw_date \<Rightarrow> error + cal_date" where
  "normalize_date (RStr s) = strptime_ymd s"
| "normalize_date (RDatetime dt) = Inr (dt_date dt)"
| "normalize_date (RDate d) = Inr d"
| "normalize_date ROther = Inl ValueError"

subsection \<open>Bulk import of daily records (\<^verbatim>\<open>import_daily_records\<close>)\<close>

text \<open>A row of a sheet after the columns are renamed; a numeric cell may be absent
  (NaN). The sheet's own net column is overwritten before it is read and is left out.\<close>

record daily_sheet_row =
  x_date :: raw_date
  x_ride_count :: "rat option"
  x_earnings :: "rat option"
  x_cng_expenses :: "rat option"
  x_driver_pass_subscription :: "rat option"
  x_indrive_topup :: "rat option"
  x_odometer_start :: "rat option"
  x_odometer_end :: "rat option"

text \<open>A row of the frame the loop iterates over, after \<^verbatim>\<open>df.fillna(0)\<close>.\<close>

record daily_frame_row =
  f_date :: raw_date
  f_ride_count :: rat
  f_earnings :: rat
  f_cng_expenses :: rat
  f_driver_pass_subscription :: rat
  f_indrive_topup :: rat
  f_odometer_start :: rat
  f_odometer_end :: rat
  f_daily_net :: rat

text \<open>Subtraction of two cells: NaN when either is NaN.\<close>

definition nan_sub :: "rat option \<Rightarrow> rat option \<Rightarrow> rat option" where
  "nan_sub a b = (case a of None \<Rightarrow> None
     | Some x \<Rightarrow> (case b of None \<Rightarrow> None | Some y \<Rightarrow> Some (x - y)))"

text \<open>Lines 50 to 57: the net is computed with only the subscription and the top-up
  filled, and then every remaining NaN of the frame becomes 0.\<close>

definition prepare_daily_row :: "daily_sheet_row \<Rightarrow> daily_frame_row" where
  "prepare_daily_row x =
     (let dn = nan_sub (nan_sub (nan_sub (x_earnings x) (x_cng_expenses x))
                  (Some (fillna 0 (x_driver_pass_subscription x))))
                  (Some (fillna 0 (x_indrive_topup x)))
      in \<lparr>f_date = x_date x,
          f_ride_count = fillna 0 (x_ride_count x),
          f_earnings = fillna 0 (x_earnings x),
          f_cng_expenses = fillna 0 (x_cng_expenses x),
          f_driver_pass_subscription = fillna 0 (x_driver_pass_subscription x),
          f_indrive_topup = fillna 0 (x_indrive_topup x),
          f_odometer_start = fillna 0 (x_odometer_start x),
          f_odometer_end = fillna 0 (x_odometer_end x),
          f_daily_net = fillna 0 dn\<rparr>)"

text \<open>\<^verbatim>\<open>float(v) if v else None\<close>.\<close>

definition float_if :: "rat \<Rightarrow> rat option" where
  "float_if v = (if v \<noteq> 0 then Some v else None)"

text \<open>The values the loop writes for a row (lines 77 to 84 and 87 to 97): integer
  columns through \<^verbatim>\<open>int\<close>, the others through \<^verbatim>\<open>float\<close>.\<close>

definition assign_row :: "daily_frame_row \<Rightarrow> DailyRecord \<Rightarrow> DailyRecord" where
  "assign_row row =
     assign_daily (py_int (f_ride_count row)) (py_int (f_earnings row))
       (py_int (f_cng_expenses row)) (f_driver_pass_subscription row)
       (f_indrive_topup row) (float_if (f_odometer_start row))
       (float_if (f_odometer_end row)) (py_int (f_daily_net row))"

definition new_row :: "cal_date \<Rightarrow> daily_frame_row \<Rightarrow> DailyRecord" where
  "new_row record_date row =
     new_daily record_date (py_int (f_ride_count row)) (py_int (f_earnings row))
       (py_int (f_cng_expenses row)) (f_driver_pass_subscription row)
       (f_indrive_topup row) (float_if (f_odometer_start row))
       (float_if (f_odometer_end row)) (py_int (f_daily_net row))"

fun daily_loop ::
  "DailyRecord session \<Rightarrow> daily_frame_row list \<Rightarrow> nat \<Rightarrow> nat
     \<Rightarrow> error + (DailyRecord session \<times> nat \<times> nat)" where
  "daily_loop s [] added updated = Inr (s, added, updated)"
| "daily_loop s (row # rows) added updated =
     (case normalize_date (f_date row) of
        Inl err \<Rightarrow> Inl err
      | Inr record_date \<Rightarrow>
          (case upsert s record_date (assign_row row) (new_row record_date row) of
             (s', True) \<Rightarrow> daily_loop s' rows added (Suc updated)
           | (s', False) \<Rightarrow> daily_loop s' rows (Suc added) updated))"

text \<open>The whole call. \<open>sheets\<close> are the frames read, one per sheet name; an empty one is
  skipped; \<^verbatim>\<open>pd.concat\<close> raises on an empty list. \<open>sort_values\<close> stands for the frame
  library's \<^verbatim>\<open>sort_values('date')\<close>, which orders the rows or raises on cells that do
  not compare. A failure inside \<^verbatim>\<open>try\<close> rolls back and is raised again. The result is
  the table after the call and either the exception or the pair of counts.\<close>

definition run_import ::
  "('row list \<Rightarrow> error + 'row list) \<Rightarrow> 'a base_scheme list \<Rightarrow> 'row list list
     \<Rightarrow> ('a base_scheme session \<Rightarrow> 'row list \<Rightarrow> nat \<Rightarrow> nat
           \<Rightarrow> error + ('a base_scheme session \<times> nat \<times> nat))
     \<Rightarrow> 'a base_scheme list \<times> (error + nat \<times> nat)" where
  "run_import sort_values tbl all_df loop =
     (if all_df = [] then (tbl, Inl ValueError)
      else case sort_values (concat all_df) of
          Inl err \<Rightarrow> (tbl, Inl err)
        | Inr combined \<Rightarrow>
            (case loop \<lparr>persistent = tbl, pending = []\<rparr> combined 0 0 of
               Inl err \<Rightarrow> (tbl, Inl err)
             | Inr (s, added, updated) \<Rightarrow>
                 (case commit s of
                    Inl err \<Rightarrow> (tbl, Inl err)
                  | Inr tbl' \<Rightarrow> (tbl', Inr (added, updated)))))"

definition daily_frames :: "daily_sheet_row list list \<Rightarrow> daily_frame_row list list" where
  "daily_frames sheets = map (map prepare_daily_row) (filter (\<lambda>df. df \<noteq> []) sheets)"

definition import_daily_records ::
  "(daily_frame_row list \<Rightarrow> error + daily_frame_row list) \<Rightarrow> DailyRecord list
     \<Rightarrow> daily_sheet_row list list \<Rightarrow> DailyRecord list \<times> (error + nat \<times> nat)" where
  "import_daily_records sort_values tbl sheets =
     run_import sort_values tbl (daily_frames sheets) daily_loop"

subsection \<open>Bulk import of other expenses (\<^verbatim>\<open>import_other_expenses\<close>)\<close>

record other_sheet_row =
  y_date :: raw_date
  y_expenses :: "rat option"
  y_months :: "string option"
  y_car_emi :: "rat option"
  y_pg_rent :: "rat option"

record other_frame_row =
  o_date :: raw_date
  o_expenses :: rat
  o_months :: "string option"
  o_car_emi :: rat
  o_pg_rent :: rat

text \<open>Lines 136 and 137: only the three amounts are filled.\<close>

definition fill_other_row :: "other_sheet_row \<Rightarrow> other_frame_row" where
  "fill_other_row y = \<lparr>o_date = y_date y, o_expenses = fillna 0 (y_expenses y),
     o_months = y_months y, o_car_emi = fillna 0 (y_car_emi y),
     o_pg_rent = fillna 0 (y_pg_rent y)\<rparr>"

text \<open>Lines 139 to 143: the rows that stay in the frame.\<close>

definition prepare_other_sheet :: "other_sheet_row list \<Rightarrow> other_frame_row list" where
  "prepare_other_sheet df =
     filter (\<lambda>r. o_expenses r \<noteq> 0 \<or> o_car_emi r \<noteq> 0 \<or> o_pg_rent r \<noteq> 0)
       (map fill_other_row df)"

fun other_loop ::
  "OtherExpense session \<Rightarrow> other_frame_row list \<Rightarrow> nat \<Rightarrow> nat
     \<Rightarrow> error + (OtherExpense session \<times> nat \<times> nat)" where
  "other_loop s [] added updated = Inr (s, added, updated)"
| "other_loop s (row # rows) added updated =
     (case normalize_date (o_date row) of
        Inl err \<Rightarrow> Inl err
      | Inr record_date \<Rightarrow>
          (case upsert s record_date
                  (assign_other (o_expenses row) (o_months row) (o_car_emi row) (o_pg_rent row))
                  (new_other record_date (o_expenses row) (o_months row) (o_car_emi row)
                     (o_pg_rent row)) of
             (s', True) \<Rightarrow> other_loop s' rows added (Suc updated)
           | (s', False) \<Rightarrow> other_loop s' rows (Suc added) updated))"

definition other_frames :: "other_sheet_row list list \<Rightarrow> other_frame_row list list" where
  "other_frames sheets = map prepare_other_sheet (filter (\<lambda>df. df \<noteq> []) sheets)"

definition import_other_expenses ::
  "(other_frame_row list \<Rightarrow> error + other_frame_row list) \<Rightarrow> OtherExpense list
     \<Rightarrow> other_sheet_row list list \<Rightarrow> OtherExpense list \<times> (error + nat \<times> nat)" where
  "import_other_expenses sort_values tbl sheets =
     run_import sort_values tbl (other_frames sheets) other_loop"

subsection \<open>Date strings, as the specification and as the parser have them\<close>









subsection \<open>Predicates used to state the properties\<close>

text \<open>The record holds the values the import loop writes for the row.\<close>

definition stored_from :: "DailyRecord \<Rightarrow> daily_frame_row \<Rightarrow> bool" where
  "stored_from r row \<longleftrightarrow>
     normalize_date (f_date row) = Inr (date r)
     \<and> ride_count r = py_int (f_ride_count row)
     \<and> earnings r = py_int (f_earnings row)
     \<and> cng_expenses r = py_int (f_cng_expenses row)
     \<and> driver_pass_subscription r = Some (f_driver_pass_subscription row)
     \<and> indrive_topup r = Some (f_indrive_topup row)
     \<and> odometer_start r = float_if (f_odometer_start row)
     \<and> odometer_end r = float_if (f_odometer_end row)
     \<and> daily_net r = py_int (f_daily_net row)"

text \<open>The dates of the rows of a batch.\<close>

definition batch_dates :: "daily_frame_row list \<Rightarrow> cal_date set" where
  "batch_dates rows = {d. \<exists>row \<in> set rows. normalize_date (f_date row) = Inr d}"

text \<open>The invariant of the import loop after the rows \<open>R\<close>: every object of the session
  whose date is a date of \<open>R\<close> holds the values of one of these rows, and every pending
  object stems from one of them.\<close>

definition loop_inv :: "DailyRecord session \<Rightarrow> daily_frame_row list \<Rightarrow> bool" where
  "loop_inv s R \<longleftrightarrow>
     (\<forall>r \<in> set (persistent s) \<union> set (pending s).
        date r \<in> batch_dates R \<longrightarrow> (\<exists>row \<in> set R. stored_from r row))
     \<and> (\<forall>r \<in> set (pending s). date r \<in> batch_dates R)"


subsection \<open>Example inputs\<close>

text \<open>Concrete sheets and records at which the properties below are evaluated.\<close>

definition ex_row :: daily_sheet_row where
  "ex_row = \<lparr>x_date = RStr ''2025-01-01'', x_ride_count = Some 5, x_earnings = Some 1000,
     x_cng_expenses = Some 200, x_driver_pass_subscription = None,
     x_indrive_topup = Some (1 / 2), x_odometer_start = Some 0, x_odometer_end = Some 1290\<rparr>"

definition ex_bad_row :: daily_sheet_row where
  "ex_bad_row = \<lparr>x_date = RStr ''2025-13-01'', x_ride_count = Some 3, x_earnings = Some 500,
     x_cng_expenses = Some 100, x_driver_pass_subscription = None,
     x_indrive_topup = None, x_odometer_start = None, x_odometer_end = None\<rparr>"

definition ex_record :: DailyRecord where
  "ex_record = \<lparr>rid = Some 1, date = \<lparr>year = 2025, month = 1, day = 1\<rparr>, ride_count = 5,
     earnings = 1000, cng_expenses = 200, driver_pass_subscription = Some 0,
     indrive_topup = Some (1 / 2), odometer_start = None, odometer_end = Some 1290,
     daily_net = 799\<rparr>"

definition ex_other_row :: other_sheet_row where
  "ex_other_row = \<lparr>y_date = RStr ''2025-01-01'', y_expenses = None, y_months = Some ''Jan'',
     y_car_emi = Some 5000, y_pg_rent = Some 3000\<rparr>"

definition ex_bad_other_row :: other_sheet_row where
  "ex_bad_other_row = \<lparr>y_date = RStr ''2025-13-01'', y_expenses = Some 10, y_months = None,
     y_car_emi = None, y_pg_rent = None\<rparr>"

definition ex_other :: OtherExpense where
  "ex_other = \<lparr>rid = Some 1, date = \<lparr>year = 2025, month = 1, day = 1\<rparr>, expenses = Some 0,
     months = Some ''Jan'', car_emi = Some 5000, pg_rent = Some 3000\<rparr>"

definition ex_feb_record :: DailyRecord where
  "ex_feb_record = \<lparr>rid = Some 2, date = \<lparr>year = 2025, month = 2, day = 2\<rparr>, ride_count = 4,
     earnings = 800, cng_expenses = 150, driver_pass_subscription = Some 0,
     indrive_topup = Some 20, odometer_start = None, odometer_end = None,
     daily_net = 630\<rparr>"

section \<open>Properties\<close>

subsection \<open>Facts about queries and updates\<close>

lemma query_None: "query_first_by_date tbl d = None \<longleftrightarrow> d \<notin> set (map date tbl)"
  by (auto simp: query_first_by_date_def find_None_iff)

lemma map_date_update_first:
  "(\<And>r. date (f r) = date r) \<Longrightarrow> map date (update_first P f tbl) = map date tbl"
  by (induction tbl) auto

lemma filter_update_first:
  "distinct (map date tbl) \<Longrightarrow> d \<in> set (map date tbl) \<Longrightarrow> (\<And>r. date (f r) = date r) \<Longrightarrow>
   \<exists>x \<in> set tbl. date x = d
      \<and> filter (\<lambda>r. date r = d) (update_first (\<lambda>r. date r = d) f tbl) = [f x]"
proof (induction tbl)
  case Nil
  then show ?case by simp
next
  case (Cons a tbl)
  show ?case
  proof (cases "date a = d")
    case True
    with Cons.prems(1) have "\<forall>r \<in> set tbl. date r \<noteq> d" by (auto simp: image_iff)
    then have "filter (\<lambda>r. date r = d) tbl = []" by (simp add: filter_empty_conv)
    with True Cons.prems(3) show ?thesis by auto
  next
    case False
    with Cons show ?thesis by auto
  qed
qed

lemma filter_other_update_first:
  "(\<And>r. date (f r) = date r) \<Longrightarrow>
   filter (\<lambda>r. date r \<noteq> d) (update_first (\<lambda>r. date r = d) f tbl)
     = filter (\<lambda>r. date r \<noteq> d) tbl"
  by (induction tbl) auto

lemma date_assign_daily [simp]: "date (assign_daily rc e c dp ind os oe dn r) = date r"
  by (simp add: assign_daily_def)

lemma date_assign_other [simp]: "date (assign_other misc note emi rent r) = date r"
  by (simp add: assign_other_def)

lemma add_record_existing:
  "d \<in> set (map date tbl) \<Longrightarrow>
   add_record tbl d rc e c dp ind os oe =
     (update_first (\<lambda>r. date r = d)
        (assign_daily rc e c dp ind (odo_positive os) (odo_positive oe)
           (py_int (of_int e - of_int c - dp - ind))) tbl, True)"
  using query_None[of tbl d]
  by (auto simp: add_record_def upsert_def commit_def Let_def split: option.splits)

lemma add_record_fresh:
  "d \<notin> set (map date tbl) \<Longrightarrow>
   add_record tbl d rc e c dp ind os oe =
     (tbl @ [(new_daily d rc e c dp ind (odo_positive os) (odo_positive oe)
           (py_int (of_int e - of_int c - dp - ind)))\<lparr>rid := Some (next_id tbl)\<rparr>], True)"
  using query_None[of tbl d]
  by (auto simp: add_record_def upsert_def commit_def Let_def new_daily_def
      split: option.splits)

lemma profit_margin_cases:
  "profit_margin r =
     (if df_earnings r \<noteq> 0 then Fin (of_int (df_daily_net r) / of_int (df_earnings r) * 100)
      else if df_daily_net r = 0 then Fin 0
      else if 0 < df_daily_net r then PInf else NInf)"
  by (simp add: profit_margin_def col_div_def)

lemma add_record_after:
  assumes "distinct (map date tbl)"
      and "add_record tbl d rc e c dp ind os oe = (tbl1, ok1)"
  shows "ok1 \<and> d \<in> set (map date tbl1) \<and> distinct (map date tbl1)
     \<and> filter (\<lambda>r. date r \<noteq> d) tbl1 = filter (\<lambda>r. date r \<noteq> d) tbl"
proof (cases "d \<in> set (map date tbl)")
  case True
  from add_record_existing[OF True, of rc e c dp ind os oe] assms(2)
  have t: "tbl1 = update_first (\<lambda>r. date r = d)
        (assign_daily rc e c dp ind (odo_positive os) (odo_positive oe)
           (py_int (of_int e - of_int c - dp - ind))) tbl" and "ok1" by simp_all
  moreover have "map date tbl1 = map date tbl"
    unfolding t by (rule map_date_update_first) simp
  moreover have "filter (\<lambda>r. date r \<noteq> d) tbl1 = filter (\<lambda>r. date r \<noteq> d) tbl"
    unfolding t by (rule filter_other_update_first) simp
  ultimately show ?thesis using True assms(1) by simp
next
  case False
  from add_record_fresh[OF False, of rc e c dp ind os oe] assms(2)
  have t: "tbl1 = tbl @ [(new_daily d rc e c dp ind (odo_positive os) (odo_positive oe)
           (py_int (of_int e - of_int c - dp - ind)))\<lparr>rid := Some (next_id tbl)\<rparr>]" and "ok1"
    by simp_all
  then show ?thesis using False assms(1) by (simp add: new_daily_def)
qed


subsection \<open>Facts about the import loop and the commit\<close>

lemma upsert_cases:
  "upsert s d f new =
     (if d \<in> set (map date (persistent s))
      then (s\<lparr>persistent := update_first (\<lambda>r. date r = d) f (persistent s)\<rparr>, True)
      else (s\<lparr>pending := pending s @ [new]\<rparr>, False))"
  using query_None[of "persistent s" d]
  by (auto simp: upsert_def split: option.splits)

lemma daily_loop_Cons:
  "daily_loop s (row # rows) a u =
     (case normalize_date (f_date row) of
        Inl err \<Rightarrow> Inl err
      | Inr d \<Rightarrow>
          if d \<in> set (map date (persistent s))
          then daily_loop (s\<lparr>persistent := update_first (\<lambda>r. date r = d) (assign_row row)
                  (persistent s)\<rparr>) rows a (Suc u)
          else daily_loop (s\<lparr>pending := pending s @ [new_row d row]\<rparr>) rows (Suc a) u)"
  by (simp add: upsert_cases split: sum.splits)

lemma date_assign_row [simp]: "date (assign_row row r) = date r"
  by (simp add: assign_row_def)

lemma stored_assign_row:
  "normalize_date (f_date row) = Inr (date r) \<Longrightarrow> stored_from (assign_row row r) row"
  by (simp add: stored_from_def assign_row_def assign_daily_def)

lemma stored_new_row:
  "normalize_date (f_date row) = Inr d \<Longrightarrow> stored_from (new_row d row) row"
  by (simp add: stored_from_def new_row_def new_daily_def)

lemma date_new_row [simp]: "date (new_row d row) = d"
  by (simp add: new_row_def new_daily_def)

lemma stored_from_rid [simp]: "stored_from (r\<lparr>rid := i\<rparr>) row = stored_from r row"
  by (simp add: stored_from_def)

lemma in_update_first:
  assumes "distinct (map date tbl)" and "\<And>r. date (f r) = date r"
      and "r \<in> set (update_first (\<lambda>r. date r = d) f tbl)"
  shows "if date r = d then (\<exists>x \<in> set tbl. date x = d \<and> r = f x) else r \<in> set tbl"
proof (cases "date r = d")
  case True
  have "map date (update_first (\<lambda>r. date r = d) f tbl) = map date tbl"
    by (rule map_date_update_first) (rule assms(2))
  with assms(3) True have mem: "d \<in> set (map date tbl)"
    by (metis image_eqI list.set_map)
  from filter_update_first[OF assms(1) mem assms(2)]
  obtain x where x: "x \<in> set tbl" "date x = d"
    "filter (\<lambda>r. date r = d) (update_first (\<lambda>r. date r = d) f tbl) = [f x]" by blast
  from assms(3) True have "r \<in> set (filter (\<lambda>r. date r = d) (update_first (\<lambda>r. date r = d) f tbl))"
    by simp
  with x show ?thesis using True by auto
next
  case False
  have "filter (\<lambda>r. date r \<noteq> d) (update_first (\<lambda>r. date r = d) f tbl)
     = filter (\<lambda>r. date r \<noteq> d) tbl"
    by (rule filter_other_update_first) (rule assms(2))
  moreover from assms(3) False
  have "r \<in> set (filter (\<lambda>r. date r \<noteq> d) (update_first (\<lambda>r. date r = d) f tbl))" by simp
  ultimately show ?thesis using False by auto
qed

lemma batch_dates_snoc:
  "normalize_date (f_date row) = Inr d \<Longrightarrow> batch_dates (R @ [row]) = insert d (batch_dates R)"
  by (auto simp: batch_dates_def)

lemma loop_inv_update:
  assumes dist: "distinct (map date (persistent s))" and inv: "loop_inv s R"
      and nd: "normalize_date (f_date row) = Inr d"
  shows "loop_inv (s\<lparr>persistent := update_first (\<lambda>r. date r = d) (assign_row row)
                  (persistent s)\<rparr>) (R @ [row])"
  unfolding loop_inv_def batch_dates_snoc[OF nd]
proof (intro conjI ballI impI)
  fix r
  assume r: "r \<in> set (persistent (s\<lparr>persistent := update_first (\<lambda>r. date r = d) (assign_row row)
                  (persistent s)\<rparr>)) \<union> set (pending (s\<lparr>persistent := update_first (\<lambda>r. date r = d) (assign_row row)
                  (persistent s)\<rparr>))"
    and dr: "date r \<in> insert d (batch_dates R)"
  show "\<exists>row \<in> set (R @ [row]). stored_from r row"
  proof (cases "r \<in> set (pending s)")
    case True
    with inv have "\<exists>row \<in> set R. stored_from r row" by (auto simp: loop_inv_def)
    then show ?thesis by auto
  next
    case False
    with r have m: "r \<in> set (update_first (\<lambda>r. date r = d) (assign_row row) (persistent s))"
      by simp
    note c = in_update_first[OF dist _ m, of ] 
    show ?thesis
    proof (cases "date r = d")
      case True
      with c obtain x where "date x = d" "r = assign_row row x" by auto
      with nd have "stored_from r row" by (simp add: stored_assign_row)
      then show ?thesis by auto
    next
      case False
      with c have "r \<in> set (persistent s)" by auto
      moreover from False dr have "date r \<in> batch_dates R" by simp
      ultimately have "\<exists>row \<in> set R. stored_from r row" using inv by (auto simp: loop_inv_def)
      then show ?thesis by auto
    qed
  qed
next
  fix r
  assume "r \<in> set (pending (s\<lparr>persistent := update_first (\<lambda>r. date r = d) (assign_row row)
                  (persistent s)\<rparr>))"
  with inv show "date r \<in> insert d (batch_dates R)" by (auto simp: loop_inv_def)
qed

lemma loop_inv_add:
  assumes inv: "loop_inv s R" and nd: "normalize_date (f_date row) = Inr d"
      and fresh: "d \<notin> set (map date (persistent s))"
  shows "loop_inv (s\<lparr>pending := pending s @ [new_row d row]\<rparr>) (R @ [row])"
  unfolding loop_inv_def batch_dates_snoc[OF nd]
proof (intro conjI ballI impI)
  fix r
  assume r: "r \<in> set (persistent (s\<lparr>pending := pending s @ [new_row d row]\<rparr>))
            \<union> set (pending (s\<lparr>pending := pending s @ [new_row d row]\<rparr>))"
    and dr: "date r \<in> insert d (batch_dates R)"
  show "\<exists>row \<in> set (R @ [row]). stored_from r row"
  proof (cases "r = new_row d row")
    case True
    with nd show ?thesis by (auto simp: stored_new_row)
  next
    case False
    with r have r': "r \<in> set (persistent s) \<union> set (pending s)" by auto
    show ?thesis
    proof (cases "date r = d")
      case True
      with fresh r' have "r \<in> set (pending s)" by auto
      with inv have "\<exists>row \<in> set R. stored_from r row" by (auto simp: loop_inv_def)
      then show ?thesis by auto
    next
      case False
      with dr r' inv show ?thesis by (auto simp: loop_inv_def)
    qed
  qed
next
  fix r
  assume "r \<in> set (pending (s\<lparr>pending := pending s @ [new_row d row]\<rparr>))"
  with inv show "date r \<in> insert d (batch_dates R)" by (auto simp: loop_inv_def)
qed

lemma batch_dates_Cons:
  "batch_dates (R @ row # rows) = batch_dates ((R @ [row]) @ rows)"
  by simp

lemma daily_loop_inv:
  assumes "distinct (map date (persistent s))" and "loop_inv s R"
      and "daily_loop s rows a u = Inr (s', a', u')"
  shows "loop_inv s' (R @ rows)
     \<and> map date (persistent s') = map date (persistent s)
     \<and> filter (\<lambda>r. date r \<notin> batch_dates rows) (persistent s')
         = filter (\<lambda>r. date r \<notin> batch_dates rows) (persistent s)
     \<and> batch_dates rows \<subseteq> date ` (set (persistent s') \<union> set (pending s'))
     \<and> set (pending s) \<subseteq> set (pending s')
     \<and> a' + u' = a + u + length rows"
  using assms
proof (induction rows arbitrary: s a u R)
  case Nil
  then show ?case by (simp add: batch_dates_def)
next
  case (Cons row rows)
  from Cons.prems(3) obtain d where nd: "normalize_date (f_date row) = Inr d"
    unfolding daily_loop_Cons by (auto split: sum.splits)
  have bd: "batch_dates (row # rows) = insert d (batch_dates rows)"
    using nd by (auto simp: batch_dates_def)
  show ?case
  proof (cases "d \<in> set (map date (persistent s))")
    case True
    let ?s1 = "s\<lparr>persistent := update_first (\<lambda>r. date r = d) (assign_row row) (persistent s)\<rparr>"
    have md: "map date (persistent ?s1) = map date (persistent s)"
      by (simp add: map_date_update_first)
    with Cons.prems(1) have dist1: "distinct (map date (persistent ?s1))" by simp
    have inv1: "loop_inv ?s1 (R @ [row])"
      by (rule loop_inv_update[OF Cons.prems(1,2) nd])
    from Cons.prems(3) nd True have run: "daily_loop ?s1 rows a (Suc u) = Inr (s', a', u')"
      unfolding daily_loop_Cons by simp
    note ih = Cons.IH[OF dist1 inv1 run]
    have f1: "filter (\<lambda>r. date r \<notin> insert d (batch_dates rows)) (persistent s')
         = filter (\<lambda>r. date r \<notin> insert d (batch_dates rows)) (persistent s)"
    proof -
      have "filter (\<lambda>r. date r \<noteq> d) (filter (\<lambda>r. date r \<notin> batch_dates rows) (persistent s'))
          = filter (\<lambda>r. date r \<notin> batch_dates rows) (filter (\<lambda>r. date r \<noteq> d) (persistent ?s1))"
        using ih by (simp add: filter_filter conj_commute)
      also have "filter (\<lambda>r. date r \<noteq> d) (persistent ?s1) = filter (\<lambda>r. date r \<noteq> d) (persistent s)"
        by (simp add: filter_other_update_first)
      finally show ?thesis by (simp add: conj_commute)
    qed
    have sub: "d \<in> date ` (set (persistent s') \<union> set (pending s'))"
    proof -
      from True md have "d \<in> set (map date (persistent ?s1))" by simp
      with ih have "d \<in> set (map date (persistent s'))" by simp
      then show ?thesis by auto
    qed
    from ih md f1 sub show ?thesis unfolding bd by simp
  next
    case False
    let ?s1 = "s\<lparr>pending := pending s @ [new_row d row]\<rparr>"
    from Cons.prems(1) have dist1: "distinct (map date (persistent ?s1))" by simp
    have inv1: "loop_inv ?s1 (R @ [row])"
      by (rule loop_inv_add[OF Cons.prems(2) nd False])
    from Cons.prems(3) nd False have run: "daily_loop ?s1 rows (Suc a) u = Inr (s', a', u')"
      unfolding daily_loop_Cons by simp
    note ih = Cons.IH[OF dist1 inv1 run]
    have f1: "filter (\<lambda>r. date r \<notin> insert d (batch_dates rows)) (persistent s')
         = filter (\<lambda>r. date r \<notin> insert d (batch_dates rows)) (persistent s)"
    proof -
      have "filter (\<lambda>r. date r \<noteq> d) (filter (\<lambda>r. date r \<notin> batch_dates rows) (persistent s'))
          = filter (\<lambda>r. date r \<noteq> d) (filter (\<lambda>r. date r \<notin> batch_dates rows) (persistent s))"
        using ih by simp
      then show ?thesis by (simp add: conj_commute)
    qed
    have sub: "d \<in> date ` (set (persistent s') \<union> set (pending s'))"
    proof -
      from ih have "new_row d row \<in> set (pending s')" by auto
      then have "date (new_row d row) \<in> date ` (set (persistent s') \<union> set (pending s'))"
        by blast
      then show ?thesis by simp
    qed
    from ih f1 sub show ?thesis unfolding bd by simp
  qed
qed

lemma flush_new_result:
  "flush_new tbl ps = Inr tbl' \<Longrightarrow>
     \<exists>qs. tbl' = tbl @ qs \<and> list_all2 (\<lambda>p q. \<exists>i. q = p\<lparr>rid := Some i\<rparr>) ps qs"
proof (induction ps arbitrary: tbl)
  case Nil
  then show ?case by simp
next
  case (Cons p ps)
  from Cons.prems have run: "flush_new (tbl @ [p\<lparr>rid := Some (next_id tbl)\<rparr>]) ps = Inr tbl'"
    by (simp split: if_splits)
  from Cons.IH[OF run] obtain qs where
    "tbl' = (tbl @ [p\<lparr>rid := Some (next_id tbl)\<rparr>]) @ qs"
    "list_all2 (\<lambda>p q. \<exists>i. q = p\<lparr>rid := Some i\<rparr>) ps qs" by blast
  then have "tbl' = tbl @ (p\<lparr>rid := Some (next_id tbl)\<rparr> # qs)
     \<and> list_all2 (\<lambda>p q. \<exists>i. q = p\<lparr>rid := Some i\<rparr>) (p # ps) (p\<lparr>rid := Some (next_id tbl)\<rparr> # qs)"
    by auto
  then show ?case by blast
qed

lemma flush_new_distinct:
  "distinct (map date tbl) \<Longrightarrow> flush_new tbl ps = Inr tbl' \<Longrightarrow> distinct (map date tbl')"
proof (induction ps arbitrary: tbl)
  case Nil
  then show ?case by simp
next
  case (Cons p ps)
  from Cons.prems(2) have fresh: "date p \<notin> set (map date tbl)"
    and run: "flush_new (tbl @ [p\<lparr>rid := Some (next_id tbl)\<rparr>]) ps = Inr tbl'"
    by (simp_all split: if_splits)
  from Cons.prems(1) fresh have "distinct (map date (tbl @ [p\<lparr>rid := Some (next_id tbl)\<rparr>]))"
    by simp
  from Cons.IH[OF this run] show ?case .
qed

lemma flush_new_mem:
  assumes "flush_new tbl ps = Inr tbl'" and "r \<in> set tbl'"
  shows "r \<in> set tbl \<or> (\<exists>p \<in> set ps. \<exists>i. r = p\<lparr>rid := Some i\<rparr>)"
proof -
  from flush_new_result[OF assms(1)] obtain qs where
    t: "tbl' = tbl @ qs" and l: "list_all2 (\<lambda>p q. \<exists>i. q = p\<lparr>rid := Some i\<rparr>) ps qs" by blast
  show ?thesis
  proof (cases "r \<in> set tbl")
    case True
    then show ?thesis by simp
  next
    case False
    with assms(2) t have "r \<in> set qs" by simp
    then obtain n where n: "n < length qs" "qs ! n = r" by (auto simp: in_set_conv_nth)
    with l have "n < length ps" "\<exists>i. r = (ps ! n)\<lparr>rid := Some i\<rparr>"
      by (auto simp: list_all2_conv_all_nth)
    then show ?thesis by (metis nth_mem)
  qed
qed

lemma flush_new_dates:
  "flush_new tbl ps = Inr tbl' \<Longrightarrow> set (map date tbl') = set (map date tbl) \<union> set (map date ps)"
proof (induction ps arbitrary: tbl)
  case Nil
  then show ?case by simp
next
  case (Cons p ps)
  from Cons.prems have run: "flush_new (tbl @ [p\<lparr>rid := Some (next_id tbl)\<rparr>]) ps = Inr tbl'"
    by (simp split: if_splits)
  from Cons.IH[OF run] show ?case by auto
qed

lemma run_import_success:
  assumes "run_import srt tbl all_df loop = (tbl', Inr (a, u))"
  obtains combined s where "srt (concat all_df) = Inr combined"
    and "loop \<lparr>persistent = tbl, pending = []\<rparr> combined 0 0 = Inr (s, a, u)"
    and "commit s = Inr tbl'"
  using assms by (auto simp: run_import_def split: if_splits sum.splits prod.splits)

lemma import_daily_written:
  assumes dist: "distinct (map date tbl)"
      and imp: "import_daily_records srt tbl sheets = (tbl', Inr (a, u))"
  shows "\<exists>combined. srt (concat (daily_frames sheets)) = Inr combined
     \<and> a + u = length combined
     \<and> distinct (map date tbl')
     \<and> batch_dates combined \<subseteq> date ` set tbl'
     \<and> (\<forall>r \<in> set tbl'. if date r \<in> batch_dates combined
            then (\<exists>row \<in> set combined. stored_from r row) else r \<in> set tbl)"
proof -
  from imp obtain combined s where
    srt: "srt (concat (daily_frames sheets)) = Inr combined"
    and run: "daily_loop \<lparr>persistent = tbl, pending = []\<rparr> combined 0 0 = Inr (s, a, u)"
    and com: "commit s = Inr tbl'"
    unfolding import_daily_records_def by (rule run_import_success)
  let ?s0 = "\<lparr>persistent = tbl, pending = []\<rparr> :: DailyRecord session"
  have d0: "distinct (map date (persistent ?s0))" using dist by simp
  have i0: "loop_inv ?s0 []" by (simp add: loop_inv_def batch_dates_def)
  from daily_loop_inv[OF d0 i0 run]
  have inv: "loop_inv s combined"
    and md: "map date (persistent s) = map date tbl"
    and flt: "filter (\<lambda>r. date r \<notin> batch_dates combined) (persistent s)
         = filter (\<lambda>r. date r \<notin> batch_dates combined) tbl"
    and cov: "batch_dates combined \<subseteq> date ` (set (persistent s) \<union> set (pending s))"
    and cnt: "a + u = length combined" by simp_all
  from com have fl: "flush_new (persistent s) (pending s) = Inr tbl'" by (simp add: commit_def)
  from md dist have "distinct (map date (persistent s))" by simp
  from flush_new_distinct[OF this fl] have dist': "distinct (map date tbl')" .
  from flush_new_dates[OF fl] cov have cov': "batch_dates combined \<subseteq> date ` set tbl'"
    by auto
  have each: "\<forall>r \<in> set tbl'. if date r \<in> batch_dates combined
            then (\<exists>row \<in> set combined. stored_from r row) else r \<in> set tbl"
  proof
    fix r assume "r \<in> set tbl'"
    from flush_new_mem[OF fl this]
    show "if date r \<in> batch_dates combined
            then (\<exists>row \<in> set combined. stored_from r row) else r \<in> set tbl"
    proof
      assume r: "r \<in> set (persistent s)"
      show ?thesis
      proof (cases "date r \<in> batch_dates combined")
        case True
        with r inv show ?thesis by (auto simp: loop_inv_def)
      next
        case False
        with r have "r \<in> set (filter (\<lambda>r. date r \<notin> batch_dates combined) (persistent s))"
          by simp
        with flt False show ?thesis by simp
      qed
    next
      assume "\<exists>p \<in> set (pending s). \<exists>i. r = p\<lparr>rid := Some i\<rparr>"
      then obtain p i where p: "p \<in> set (pending s)" "r = p\<lparr>rid := Some i\<rparr>" by blast
      with inv have "date p \<in> batch_dates combined" "\<exists>row \<in> set combined. stored_from p row"
        by (auto simp: loop_inv_def)
      with p show ?thesis by simp
    qed
  qed
  from srt cnt dist' cov' each show ?thesis by blast
qed

subsection \<open>Failure of the loop, counts, and the rows of a successful import\<close>

lemma normalize_date_error: "normalize_date x = Inl err \<Longrightarrow> err = ValueError"
  by (cases x) (auto simp: strptime_ymd_def split: list.splits prod.splits if_splits)

lemma daily_loop_fail:
  "\<exists>row \<in> set rows. \<exists>err. normalize_date (f_date row) = Inl err \<Longrightarrow>
   daily_loop s rows a u = Inl ValueError"
proof (induction rows arbitrary: s a u)
  case Nil
  then show ?case by simp
next
  case (Cons row rows)
  show ?case
  proof (cases "normalize_date (f_date row)")
    case (Inl err)
    then show ?thesis using normalize_date_error[OF Inl] by simp
  next
    case (Inr d)
    with Cons.prems have "\<exists>row \<in> set rows. \<exists>err. normalize_date (f_date row) = Inl err" by auto
    from Cons.IH[OF this] Inr show ?thesis
      by (simp split: prod.splits bool.splits)
  qed
qed

lemma other_loop_fail:
  "\<exists>row \<in> set rows. \<exists>err. normalize_date (o_date row) = Inl err \<Longrightarrow>
   other_loop s rows a u = Inl ValueError"
proof (induction rows arbitrary: s a u)
  case Nil
  then show ?case by simp
next
  case (Cons row rows)
  show ?case
  proof (cases "normalize_date (o_date row)")
    case (Inl err)
    then show ?thesis using normalize_date_error[OF Inl] by simp
  next
    case (Inr d)
    with Cons.prems have "\<exists>row \<in> set rows. \<exists>err. normalize_date (o_date row) = Inl err" by auto
    from Cons.IH[OF this] Inr show ?thesis
      by (simp split: prod.splits bool.splits)
  qed
qed

lemma other_loop_count:
  "other_loop s rows a u = Inr (s', a', u') \<Longrightarrow> a' + u' = a + u + length rows"
proof (induction rows arbitrary: s a u)
  case Nil
  then show ?case by simp
next
  case (Cons row rows)
  from Cons.prems obtain d where nd: "normalize_date (o_date row) = Inr d"
    by (auto split: sum.splits)
  obtain s1 b where up: "upsert s d (assign_other (o_expenses row) (o_months row) (o_car_emi row) (o_pg_rent row))
                  (new_other d (o_expenses row) (o_months row) (o_car_emi row)
                     (o_pg_rent row)) = (s1, b)" by (cases "upsert s d (assign_other (o_expenses row) (o_months row) (o_car_emi row) (o_pg_rent row))
                  (new_other d (o_expenses row) (o_months row) (o_car_emi row)
                     (o_pg_rent row))") 
  show ?case
  proof (cases b)
    case True
    with Cons.prems nd up have "other_loop s1 rows a (Suc u) = Inr (s', a', u')" by simp
    from Cons.IH[OF this] show ?thesis by simp
  next
    case False
    with Cons.prems nd up have "other_loop s1 rows (Suc a) u = Inr (s', a', u')" by simp
    from Cons.IH[OF this] show ?thesis by simp
  qed
qed

lemma daily_loop_count:
  "daily_loop s rows a u = Inr (s', a', u') \<Longrightarrow> a' + u' = a + u + length rows"
proof (induction rows arbitrary: s a u)
  case Nil
  then show ?case by simp
next
  case (Cons row rows)
  from Cons.prems obtain d where nd: "normalize_date (f_date row) = Inr d"
    by (auto split: sum.splits)
  obtain s1 b where up: "upsert s d (assign_row row) (new_row d row) = (s1, b)"
    by (cases "upsert s d (assign_row row) (new_row d row)")
  show ?case
  proof (cases b)
    case True
    with Cons.prems nd up have "daily_loop s1 rows a (Suc u) = Inr (s', a', u')" by simp
    from Cons.IH[OF this] show ?thesis by simp
  next
    case False
    with Cons.prems nd up have "daily_loop s1 rows (Suc a) u = Inr (s', a', u')" by simp
    from Cons.IH[OF this] show ?thesis by simp
  qed
qed

lemma run_import_rollback:
  "snd (run_import srt tbl all_df loop) = Inl err \<Longrightarrow> fst (run_import srt tbl all_df loop) = tbl"
  by (auto simp: run_import_def split: if_splits sum.splits prod.splits)

lemma set_daily_frames:
  "set (concat (daily_frames sheets)) = prepare_daily_row ` set (concat sheets)"
  by (induction sheets) (auto simp: daily_frames_def)

lemma f_date_prepare [simp]: "f_date (prepare_daily_row x) = x_date x"
  by (simp add: prepare_daily_row_def Let_def)

lemma py_int_of_int [simp]: "py_int (of_int n) = n"
  by (simp add: py_int_def)


lemma import_daily_rows:
  assumes dist: "distinct (map date tbl)"
      and perm: "\<forall>xs ys. sort_values xs = Inr ys \<longrightarrow> set ys = set xs"
      and imp: "import_daily_records sort_values tbl sheets = (tbl', Inr (a, u))"
  shows "(\<forall>x \<in> set (concat sheets). \<exists>r \<in> set tbl'. normalize_date (x_date x) = Inr (date r))
     \<and> (\<forall>r \<in> set tbl'.
          if \<exists>x \<in> set (concat sheets). normalize_date (x_date x) = Inr (date r)
          then \<exists>x \<in> set (concat sheets). stored_from r (prepare_daily_row x)
          else r \<in> set tbl)"
proof -
  from import_daily_written[OF dist imp] obtain combined where
    srt: "sort_values (concat (daily_frames sheets)) = Inr combined"
    and cov: "batch_dates combined \<subseteq> date ` set tbl'"
    and each: "\<forall>r \<in> set tbl'. if date r \<in> batch_dates combined
            then (\<exists>row \<in> set combined. stored_from r row) else r \<in> set tbl" by blast
  from perm srt have "set combined = set (concat (daily_frames sheets))" by blast
  then have sc: "set combined = prepare_daily_row ` set (concat sheets)"
    by (simp only: set_daily_frames)
  have bd: "batch_dates combined
      = {d. \<exists>x \<in> set (concat sheets). normalize_date (x_date x) = Inr d}"
    by (auto simp: batch_dates_def sc)
  from imp srt obtain s where
    run: "daily_loop \<lparr>persistent = tbl, pending = []\<rparr> combined 0 0 = Inr (s, a, u)"
    unfolding import_daily_records_def by (auto elim!: run_import_success)
  have ok: "\<exists>d. normalize_date (x_date x) = Inr d" if "x \<in> set (concat sheets)" for x
  proof (rule ccontr)
    assume "\<not> ?thesis"
    then obtain err where "normalize_date (f_date (prepare_daily_row x)) = Inl err"
      by (cases "normalize_date (x_date x)") auto
    with that sc have "\<exists>row \<in> set combined. \<exists>err. normalize_date (f_date row) = Inl err"
      by blast
    from daily_loop_fail[OF this] run show False by simp
  qed
  have A: "\<forall>x \<in> set (concat sheets). \<exists>r \<in> set tbl'. normalize_date (x_date x) = Inr (date r)"
  proof
    fix x assume x: "x \<in> set (concat sheets)"
    from ok[OF x] obtain d where d: "normalize_date (x_date x) = Inr d" ..
    with x have "d \<in> batch_dates combined" by (auto simp: bd)
    with cov obtain r where "r \<in> set tbl'" "d = date r" by auto
    with d show "\<exists>r \<in> set tbl'. normalize_date (x_date x) = Inr (date r)" by auto
  qed
  have B: "\<forall>r \<in> set tbl'.
          if \<exists>x \<in> set (concat sheets). normalize_date (x_date x) = Inr (date r)
          then \<exists>x \<in> set (concat sheets). stored_from r (prepare_daily_row x)
          else r \<in> set tbl"
  proof
    fix r assume "r \<in> set tbl'"
    with each have e: "if date r \<in> batch_dates combined
            then (\<exists>row \<in> set combined. stored_from r row) else r \<in> set tbl" by blast
    have m: "(date r \<in> batch_dates combined)
        = (\<exists>x \<in> set (concat sheets). normalize_date (x_date x) = Inr (date r))"
      by (simp add: bd)
    show "if \<exists>x \<in> set (concat sheets). normalize_date (x_date x) = Inr (date r)
          then \<exists>x \<in> set (concat sheets). stored_from r (prepare_daily_row x)
          else r \<in> set tbl"
      using e unfolding m sc by (auto split: if_splits)
  qed
  from A B show ?thesis by blast
qed

lemma add_record_row:
  assumes "distinct (map date tbl)"
      and "add_record tbl d rc e c dp ind os oe = (tbl1, ok)"
      and "r \<in> set tbl1" and "date r = d"
  shows "r\<lparr>rid := None\<rparr> = new_daily d rc e c dp ind (odo_positive os) (odo_positive oe)
           (py_int (of_int e - of_int c - dp - ind))
       \<or> (\<exists>x. r = assign_daily rc e c dp ind (odo_positive os) (odo_positive oe)
           (py_int (of_int e - of_int c - dp - ind)) x)"
proof (cases "d \<in> set (map date tbl)")
  case True
  let ?f = "assign_daily rc e c dp ind (odo_positive os) (odo_positive oe)
           (py_int (of_int e - of_int c - dp - ind))"
  from add_record_existing[OF True, of rc e c dp ind os oe] assms(2)
  have t: "tbl1 = update_first (\<lambda>r. date r = d) ?f tbl" by simp
  from assms(3) have "r \<in> set (update_first (\<lambda>r. date r = d) ?f tbl)" by (simp add: t)
  from in_update_first[OF assms(1) _ this] assms(4) show ?thesis by auto
next
  case False
  from add_record_fresh[OF False, of rc e c dp ind os oe] assms(2)
  have t: "tbl1 = tbl @ [(new_daily d rc e c dp ind (odo_positive os) (odo_positive oe)
           (py_int (of_int e - of_int c - dp - ind)))\<lparr>rid := Some (next_id tbl)\<rparr>]" by simp
  with assms(3,4) False have "r = (new_daily d rc e c dp ind (odo_positive os) (odo_positive oe)
           (py_int (of_int e - of_int c - dp - ind)))\<lparr>rid := Some (next_id tbl)\<rparr>"
    by auto
  then show ?thesis by (simp add: new_daily_def)
qed

lemma add_record_fields:
  assumes "distinct (map date tbl)"
      and "add_record tbl d rc e c dp ind os oe = (tbl1, ok)"
      and "r \<in> set tbl1" and "date r = d"
  shows "ride_count r = rc \<and> earnings r = e \<and> cng_expenses r = c
     \<and> driver_pass_subscription r = Some dp \<and> indrive_topup r = Some ind
     \<and> odometer_start r = odo_positive os \<and> odometer_end r = odo_positive oe
     \<and> daily_net r = py_int (of_int e - of_int c - dp - ind)"
  using add_record_row[OF assms]
proof
  assume "r\<lparr>rid := None\<rparr> = new_daily d rc e c dp ind (odo_positive os) (odo_positive oe)
           (py_int (of_int e - of_int c - dp - ind))"
  then have "ride_count (r\<lparr>rid := None\<rparr>) = rc \<and> earnings (r\<lparr>rid := None\<rparr>) = e
     \<and> cng_expenses (r\<lparr>rid := None\<rparr>) = c
     \<and> driver_pass_subscription (r\<lparr>rid := None\<rparr>) = Some dp
     \<and> indrive_topup (r\<lparr>rid := None\<rparr>) = Some ind
     \<and> odometer_start (r\<lparr>rid := None\<rparr>) = odo_positive os
     \<and> odometer_end (r\<lparr>rid := None\<rparr>) = odo_positive oe
     \<and> daily_net (r\<lparr>rid := None\<rparr>) = py_int (of_int e - of_int c - dp - ind)"
    by (simp add: new_daily_def)
  then show ?thesis by simp
next
  assume "\<exists>x. r = assign_daily rc e c dp ind (odo_positive os) (odo_positive oe)
           (py_int (of_int e - of_int c - dp - ind)) x"
  then show ?thesis by (auto simp: assign_daily_def)
qed

subsection \<open>Facts about the monthly summary\<close>

lemma find_const: "find (\<lambda>k. k = m) ks = (if m \<in> set ks then Some m else None)"
  by (induction ks) auto

lemma find_map_key:
  "(\<And>k. key (h k) = k) \<Longrightarrow>
   find (\<lambda>e. key e = m) (map h ks) = map_option h (find (\<lambda>k. k = m) ks)"
  by (induction ks) auto

lemma expense_group_empty:
  "expense_group odf m = [] \<longleftrightarrow> m \<notin> (\<lambda>r. to_period_M (od_date r)) ` set odf"
  by (auto simp: expense_group_def filter_empty_conv)

lemma find_expense_summary:
  "find (\<lambda>e. e_month e = m) (expense_summary odf) =
     (if expense_group odf m = [] then None
      else Some \<lparr>e_month = m,
                e_car_emi = nansum (map od_car_emi (expense_group odf m)),
                e_pg_rent = nansum (map od_pg_rent (expense_group odf m)),
                e_expenses = nansum (map od_expenses (expense_group odf m))\<rparr>)"
  unfolding expense_summary_def
  by (subst find_map_key) (simp_all add: find_const expense_group_empty)

lemma sum_list_net:
  "\<forall>r \<in> set g. of_int (df_daily_net r)
       = of_int (df_earnings r) - of_int (df_cng_expenses r) - df_driver_pass_subscription r
           - df_indrive_topup r \<Longrightarrow>
   (of_int (sum_list (map df_daily_net g)) :: rat)
     = of_int (sum_list (map df_earnings g))
       - (of_int (sum_list (map df_cng_expenses g)) + sum_list (map df_driver_pass_subscription g)
           + sum_list (map df_indrive_topup g))"
  by (induction g) (auto simp: algebra_simps)

lemma monthly_row_of_other:
  assumes "odf \<noteq> []"
  shows "m_total_all_expenses (monthly_row_of fdf odf m)
       = Some (m_total_expenses (monthly_row_of fdf odf m)
           + nansum (map od_car_emi (expense_group odf m))
           + nansum (map od_pg_rent (expense_group odf m))
           + nansum (map od_expenses (expense_group odf m)))"
    and "m_net_profit (monthly_row_of fdf odf m)
       = of_int (m_earnings (monthly_row_of fdf odf m))
         - (m_total_expenses (monthly_row_of fdf odf m)
           + nansum (map od_car_emi (expense_group odf m))
           + nansum (map od_pg_rent (expense_group odf m))
           + nansum (map od_expenses (expense_group odf m)))"
  using assms
  by (simp_all add: monthly_row_of_def Let_def find_expense_summary fillna_def nansum_def)

lemma monthly_row_of_sums:
  "m_month (monthly_row_of fdf odf m) = m"
  "m_earnings (monthly_row_of fdf odf m) = sum_list (map df_earnings (month_group fdf m))"
  "m_daily_net (monthly_row_of fdf odf m) = sum_list (map df_daily_net (month_group fdf m))"
  "m_total_expenses (monthly_row_of fdf odf m)
     = of_int (sum_list (map df_cng_expenses (month_group fdf m)))
       + sum_list (map df_driver_pass_subscription (month_group fdf m))
       + sum_list (map df_indrive_topup (month_group fdf m))"
  by (simp_all add: monthly_row_of_def Let_def)

lemma monthly_row_of_no_other:
  "odf = [] \<Longrightarrow> m_net_profit (monthly_row_of fdf odf m)
      = of_int (m_daily_net (monthly_row_of fdf odf m))"
  by (simp add: monthly_row_of_def Let_def)

lemma set_monthly_summary:
  "set (monthly_summary fdf odf)
     = monthly_row_of fdf odf ` (\<lambda>r. to_period_M (df_date r)) ` set fdf"
  by (auto simp: monthly_summary_def)

subsection \<open>Facts about the date parser\<close>






























subsection \<open>Aggregation\<close>



text \<open>C4. The claim is that the margin of a row with zero earnings is 0 whatever its
  net is. A day with no earnings and a CNG expense of 100, entered through \<open>add_record\<close>,
  is stored with a net of -100; the margin series of the loaded frame then holds minus
  infinity for it, because filling NaN leaves the infinities of a division by zero in
  place.\<close>

theorem profit_margin_zero_earnings:
  "add_record [] \<lparr>year = 2025, month = 1, day = 1\<rparr> 0 0 100 0 0 0 0
     = ([\<lparr>rid = Some 1, date = \<lparr>year = 2025, month = 1, day = 1\<rparr>, ride_count = 0,
          earnings = 0, cng_expenses = 100, driver_pass_subscription = Some 0,
          indrive_topup = Some 0, odometer_start = None, odometer_end = None,
          daily_net = - 100\<rparr>], True)
   \<and> profit_margin_series (load_data (fst (add_record [] \<lparr>year = 2025, month = 1, day = 1\<rparr>
         0 0 100 0 0 0 0))) = [NInf]"
  by (simp add: add_record_def upsert_def query_first_by_date_def commit_def next_id_def
      new_daily_def odo_positive_def py_int_def load_data_def load_row_def
      profit_margin_series_def profit_margin_def col_div_def or0_def)

text \<open>C5, as amended. The monthly summary has one row per month of the selection, with
  the sums of that month. When the frame of other expenses has any row, of whatever
  month, the total of a month adds the month's car_emi, pg_rent and misc sums (zero for
  a month without such rows) to its daily expenses, and the net profit is the month's
  earnings minus that total. When the frame is empty, the net profit is the month's
  summed daily_net. For a month without other expenses the net profit is the summed
  daily_net also whenever each of its records has a net equal to its formula.\<close>

theorem monthly_summary_net_profit:
  "m_month ` set (monthly_summary filtered_df other_expenses_df)
     = (\<lambda>r. to_period_M (df_date r)) ` set filtered_df
   \<and> (\<forall>row \<in> set (monthly_summary filtered_df other_expenses_df).
        m_earnings row = sum_list (map df_earnings (month_group filtered_df (m_month row)))
      \<and> m_daily_net row = sum_list (map df_daily_net (month_group filtered_df (m_month row)))
      \<and> m_total_expenses row
          = of_int (sum_list (map df_cng_expenses (month_group filtered_df (m_month row))))
            + sum_list (map df_driver_pass_subscription (month_group filtered_df (m_month row)))
            + sum_list (map df_indrive_topup (month_group filtered_df (m_month row)))
      \<and> (other_expenses_df \<noteq> [] \<longrightarrow>
           m_total_all_expenses row
             = Some (m_total_expenses row
                 + nansum (map od_car_emi (expense_group other_expenses_df (m_month row)))
                 + nansum (map od_pg_rent (expense_group other_expenses_df (m_month row)))
                 + nansum (map od_expenses (expense_group other_expenses_df (m_month row))))
           \<and> m_net_profit row
             = of_int (m_earnings row)
               - (m_total_expenses row
                 + nansum (map od_car_emi (expense_group other_expenses_df (m_month row)))
                 + nansum (map od_pg_rent (expense_group other_expenses_df (m_month row)))
                 + nansum (map od_expenses (expense_group other_expenses_df (m_month row)))))
      \<and> (other_expenses_df = [] \<longrightarrow> m_net_profit row = of_int (m_daily_net row))
      \<and> (expense_group other_expenses_df (m_month row) = []
           \<and> (\<forall>r \<in> set (month_group filtered_df (m_month row)).
                 of_int (df_daily_net r)
                   = of_int (df_earnings r) - of_int (df_cng_expenses r)
                     - df_driver_pass_subscription r - df_indrive_topup r) \<longrightarrow>
           m_net_profit row = of_int (m_daily_net row)))"
proof (intro conjI ballI)
  show "m_month ` set (monthly_summary filtered_df other_expenses_df)
     = (\<lambda>r. to_period_M (df_date r)) ` set filtered_df"
    by (simp add: set_monthly_summary image_image monthly_row_of_sums(1))
next
  fix row assume "row \<in> set (monthly_summary filtered_df other_expenses_df)"
  then obtain m where row: "row = monthly_row_of filtered_df other_expenses_df m"
    by (auto simp: set_monthly_summary)
  have mm: "m_month row = m" by (simp add: row monthly_row_of_sums(1))
  show "m_earnings row = sum_list (map df_earnings (month_group filtered_df (m_month row)))"
    unfolding mm by (simp add: row monthly_row_of_sums)
  show "m_daily_net row = sum_list (map df_daily_net (month_group filtered_df (m_month row)))"
    unfolding mm by (simp add: row monthly_row_of_sums)
  show te: "m_total_expenses row
          = of_int (sum_list (map df_cng_expenses (month_group filtered_df (m_month row))))
            + sum_list (map df_driver_pass_subscription (month_group filtered_df (m_month row)))
            + sum_list (map df_indrive_topup (month_group filtered_df (m_month row)))"
    unfolding mm by (simp add: row monthly_row_of_sums)
  show oth: "other_expenses_df \<noteq> [] \<longrightarrow>
           m_total_all_expenses row
             = Some (m_total_expenses row
                 + nansum (map od_car_emi (expense_group other_expenses_df (m_month row)))
                 + nansum (map od_pg_rent (expense_group other_expenses_df (m_month row)))
                 + nansum (map od_expenses (expense_group other_expenses_df (m_month row))))
           \<and> m_net_profit row
             = of_int (m_earnings row)
               - (m_total_expenses row
                 + nansum (map od_car_emi (expense_group other_expenses_df (m_month row)))
                 + nansum (map od_pg_rent (expense_group other_expenses_df (m_month row)))
                 + nansum (map od_expenses (expense_group other_expenses_df (m_month row))))"
    unfolding mm unfolding row
    using monthly_row_of_other[of other_expenses_df filtered_df m] by blast
  show none: "other_expenses_df = [] \<longrightarrow> m_net_profit row = of_int (m_daily_net row)"
    unfolding row by (simp add: monthly_row_of_no_other)
  show "expense_group other_expenses_df (m_month row) = []
           \<and> (\<forall>r \<in> set (month_group filtered_df (m_month row)).
                 of_int (df_daily_net r)
                   = of_int (df_earnings r) - of_int (df_cng_expenses r)
                     - df_driver_pass_subscription r - df_indrive_topup r) \<longrightarrow>
           m_net_profit row = of_int (m_daily_net row)"
  proof
    assume h: "expense_group other_expenses_df (m_month row) = []
           \<and> (\<forall>r \<in> set (month_group filtered_df (m_month row)).
                 of_int (df_daily_net r)
                   = of_int (df_earnings r) - of_int (df_cng_expenses r)
                     - df_driver_pass_subscription r - df_indrive_topup r)"
    show "m_net_profit row = of_int (m_daily_net row)"
    proof (cases "other_expenses_df = []")
      case True
      with none show ?thesis by simp
    next
      case False
      with oth h have "m_net_profit row = of_int (m_earnings row) - m_total_expenses row"
        by (simp add: nansum_def)
      also have "\<dots> = of_int (m_daily_net row)"
        using sum_list_net[of "month_group filtered_df m"] h
        unfolding mm by (simp add: row monthly_row_of_sums)
      finally show ?thesis .
    qed
  qed
qed

text \<open>The claim as stated fails for January 2025 below: the month has no other
  expenses (the only one is in February), its summed daily_net is 9 (a driver pass of
  0.5 was truncated away), and the summary shows a net profit of 9.5.\<close>

theorem monthly_net_profit_counterexample:
  "expense_group
     (load_other_expenses
        (fst (add_other_expense [] \<lparr>year = 2025, month = 2, day = 1\<rparr> 5000 0 0 ''Feb'')))
     (2025, 1) = []
   \<and> map m_month
       (monthly_summary
          (load_data (fst (add_record [] \<lparr>year = 2025, month = 1, day = 1\<rparr> 1 10 0 (1 / 2) 0 0 0)))
          (load_other_expenses
             (fst (add_other_expense [] \<lparr>year = 2025, month = 2, day = 1\<rparr> 5000 0 0 ''Feb''))))
       = [(2025, 1)]
   \<and> map m_net_profit
       (monthly_summary
          (load_data (fst (add_record [] \<lparr>year = 2025, month = 1, day = 1\<rparr> 1 10 0 (1 / 2) 0 0 0)))
          (load_other_expenses
             (fst (add_other_expense [] \<lparr>year = 2025, month = 2, day = 1\<rparr> 5000 0 0 ''Feb''))))
       = [19 / 2]
   \<and> map m_daily_net
       (monthly_summary
          (load_data (fst (add_record [] \<lparr>year = 2025, month = 1, day = 1\<rparr> 1 10 0 (1 / 2) 0 0 0)))
          (load_other_expenses
             (fst (add_other_expense [] \<lparr>year = 2025, month = 2, day = 1\<rparr> 5000 0 0 ''Feb''))))
       = [9]"
  by code_simp

text \<open>A month with other expenses, the same month without any other expenses in the
  table, and a month without other expenses of its own.\<close>

theorem monthly_summary_net_profit_witness:
  "load_other_expenses [ex_other] \<noteq> []
   \<and> map m_net_profit
        (monthly_summary (load_data [ex_record]) (load_other_expenses [ex_other]))
       = [- 14401 / 2]
   \<and> map m_net_profit (monthly_summary (load_data [ex_record]) [])
       = map (of_int \<circ> m_daily_net) (monthly_summary (load_data [ex_record]) [])
   \<and> map m_net_profit (monthly_summary (load_data [ex_record]) []) = [799]
   \<and> expense_group (load_other_expenses [ex_other]) (2025, 2) = []
   \<and> map m_net_profit
        (monthly_summary (load_data [ex_feb_record]) (load_other_expenses [ex_other]))
       = map (of_int \<circ> m_daily_net)
           (monthly_summary (load_data [ex_feb_record]) (load_other_expenses [ex_other]))
   \<and> map m_net_profit
        (monthly_summary (load_data [ex_feb_record]) (load_other_expenses [ex_other]))
       = [630]"
proof -
  let ?O = "load_other_expenses [ex_other]"
  let ?F1 = "load_data [ex_record]"
  let ?F3 = "load_data [ex_feb_record]"
  have o: "?O \<noteq> []" by code_simp
  have c1: "map m_net_profit (monthly_summary ?F1 ?O) = [- 14401 / 2]" by code_simp
  have c2: "map m_net_profit (monthly_summary ?F1 []) = [799]" by code_simp
  have e3: "expense_group ?O (2025, 2) = []" by code_simp
  have c3: "map m_net_profit (monthly_summary ?F3 ?O) = [630]" by code_simp
  have h3: "\<forall>row \<in> set (monthly_summary ?F3 ?O).
      expense_group ?O (m_month row) = []
      \<and> (\<forall>r \<in> set (month_group ?F3 (m_month row)).
            (of_int (df_daily_net r) :: rat)
              = of_int (df_earnings r) - of_int (df_cng_expenses r)
                - df_driver_pass_subscription r - df_indrive_topup r)"
    by code_simp
  note t1 = monthly_summary_net_profit[of ?F1 ?O]
  note t2 = monthly_summary_net_profit[of ?F1 "[]"]
  note t3 = monthly_summary_net_profit[of ?F3 ?O]
  from t2 have "\<forall>row \<in> set (monthly_summary ?F1 []). m_net_profit row = of_int (m_daily_net row)"
    by blast
  then have w2: "map m_net_profit (monthly_summary ?F1 [])
       = map (of_int \<circ> m_daily_net) (monthly_summary ?F1 [])" by simp
  from t3 h3 have "\<forall>row \<in> set (monthly_summary ?F3 ?O). m_net_profit row = of_int (m_daily_net row)"
    by blast
  then have w3: "map m_net_profit (monthly_summary ?F3 ?O)
       = map (of_int \<circ> m_daily_net) (monthly_summary ?F3 ?O)" by simp
  have all: "?thesis" using o c1 w2 c2 e3 w3 c3 by (intro conjI)
  show ?thesis by (insert t1, rule all)
qed

subsection \<open>Manual entry\<close>



text \<open>C10. For a date with no row, \<open>add_other_expense\<close> with all three amounts 0 adds a row
  with these zeros and returns \<^verbatim>\<open>True\<close>; the bulk importer's filter drops the same
  values.\<close>


theorem add_other_expense_keeps_zero_row:
  assumes "query_first_by_date tbl d = None"
  shows "add_other_expense tbl d 0 0 0 note
           = (tbl @ [\<lparr>rid = Some (next_id tbl), date = d, expenses = Some 0,
                      months = Some note, car_emi = Some 0, pg_rent = Some 0\<rparr>], True)
     \<and> prepare_other_sheet [\<lparr>y_date = RDate d, y_expenses = Some 0, y_months = Some note,
           y_car_emi = Some 0, y_pg_rent = Some 0\<rparr>] = []"
  using assms query_None[of tbl d]
  by (simp add: add_other_expense_def upsert_def commit_def new_other_def
      prepare_other_sheet_def fill_other_row_def fillna_def)

theorem add_other_expense_keeps_zero_row_witness:
  "query_first_by_date ([] :: OtherExpense list) \<lparr>year = 2025, month = 1, day = 1\<rparr> = None
   \<and> add_other_expense [] \<lparr>year = 2025, month = 1, day = 1\<rparr> 0 0 0 ''''
       = ([\<lparr>rid = Some 1, date = \<lparr>year = 2025, month = 1, day = 1\<rparr>, expenses = Some 0,
            months = Some '''', car_emi = Some 0, pg_rent = Some 0\<rparr>], True)"
  using add_other_expense_keeps_zero_row [of "[]" "\<lparr>year = 2025, month = 1, day = 1\<rparr>" "''''"]
  by (simp add: query_first_by_date_def next_id_def)

subsection \<open>Bulk import\<close>

text \<open>C9. The frame of an other-expenses sheet keeps, in order, exactly the rows in which
  one of expenses, car_emi and pg_rent is nonzero after absent values are filled with 0;
  the upsert loop of the importer runs on the frames so filtered.\<close>

theorem prepare_other_sheet_filter:
  "prepare_other_sheet df
     = map fill_other_row
         (filter (\<lambda>y. \<not> (fillna 0 (y_expenses y) = 0 \<and> fillna 0 (y_car_emi y) = 0
                          \<and> fillna 0 (y_pg_rent y) = 0)) df)
   \<and> import_other_expenses sort_values tbl sheets
     = run_import sort_values tbl
         (map (\<lambda>df. map fill_other_row
            (filter (\<lambda>y. \<not> (fillna 0 (y_expenses y) = 0 \<and> fillna 0 (y_car_emi y) = 0
                          \<and> fillna 0 (y_pg_rent y) = 0)) df))
            (filter (\<lambda>df. df \<noteq> []) sheets)) other_loop"
proof -
  have eq: "prepare_other_sheet df
     = map fill_other_row
         (filter (\<lambda>y. \<not> (fillna 0 (y_expenses y) = 0 \<and> fillna 0 (y_car_emi y) = 0
                          \<and> fillna 0 (y_pg_rent y) = 0)) df)" for df
    by (simp add: prepare_other_sheet_def filter_map o_def fill_other_row_def)
  show ?thesis
    by (simp only: eq [symmetric] import_other_expenses_def other_frames_def)
qed

text \<open>A sheet with an empty row, a row of zeros and a row with a rent of 3000: only the
  last one stays.\<close>

theorem prepare_other_sheet_filter_witness:
  "prepare_other_sheet
     [\<lparr>y_date = RDate \<lparr>year = 2025, month = 1, day = 1\<rparr>, y_expenses = None, y_months = None,
        y_car_emi = None, y_pg_rent = None\<rparr>,
      \<lparr>y_date = RDate \<lparr>year = 2025, month = 1, day = 2\<rparr>, y_expenses = Some 0, y_months = None,
        y_car_emi = Some 0, y_pg_rent = Some 0\<rparr>,
      \<lparr>y_date = RDate \<lparr>year = 2025, month = 1, day = 3\<rparr>, y_expenses = None, y_months = None,
        y_car_emi = Some 0, y_pg_rent = Some 3000\<rparr>]
   = [\<lparr>o_date = RDate \<lparr>year = 2025, month = 1, day = 3\<rparr>, o_expenses = 0, o_months = None,
        o_car_emi = 0, o_pg_rent = 3000\<rparr>]"
  using prepare_other_sheet_filter [of
     "[\<lparr>y_date = RDate \<lparr>year = 2025, month = 1, day = 1\<rparr>, y_expenses = None, y_months = None,
        y_car_emi = None, y_pg_rent = None\<rparr>,
      \<lparr>y_date = RDate \<lparr>year = 2025, month = 1, day = 2\<rparr>, y_expenses = Some 0, y_months = None,
        y_car_emi = Some 0, y_pg_rent = Some 0\<rparr>,
      \<lparr>y_date = RDate \<lparr>year = 2025, month = 1, day = 3\<rparr>, y_expenses = None, y_months = None,
        y_car_emi = Some 0, y_pg_rent = Some 3000\<rparr>]" "Inr" "[]" "[]"]
  by (simp add: fillna_def fill_other_row_def)

text \<open>C3. One call of either importer is all or nothing. Whenever the call raises, the
  table is the one before the call. When a row of the sorted batch does not normalize,
  the call raises that error. When the call returns counts, every row normalized, the
  loop ran to its end, the commit succeeded, and the counts add up to the number of
  rows.\<close>

theorem import_is_atomic:
  "(snd (import_daily_records sort_values tbl sheets) = Inl err \<longrightarrow>
      fst (import_daily_records sort_values tbl sheets) = tbl)
   \<and> (sort_values (concat (daily_frames sheets)) = Inr combined
        \<and> (\<exists>row \<in> set combined. normalize_date (f_date row) = Inl err) \<longrightarrow>
      import_daily_records sort_values tbl sheets = (tbl, Inl err))
   \<and> (import_daily_records sort_values tbl sheets = (tbl', Inr (a, u)) \<longrightarrow>
      (\<exists>rows s. sort_values (concat (daily_frames sheets)) = Inr rows
         \<and> (\<forall>row \<in> set rows. \<exists>d. normalize_date (f_date row) = Inr d)
         \<and> daily_loop \<lparr>persistent = tbl, pending = []\<rparr> rows 0 0 = Inr (s, a, u)
         \<and> commit s = Inr tbl' \<and> a + u = length rows))
   \<and> (snd (import_other_expenses sort_values' otbl osheets) = Inl err \<longrightarrow>
      fst (import_other_expenses sort_values' otbl osheets) = otbl)
   \<and> (sort_values' (concat (other_frames osheets)) = Inr ocombined
        \<and> (\<exists>row \<in> set ocombined. normalize_date (o_date row) = Inl err) \<longrightarrow>
      import_other_expenses sort_values' otbl osheets = (otbl, Inl err))
   \<and> (import_other_expenses sort_values' otbl osheets = (otbl', Inr (a', u')) \<longrightarrow>
      (\<exists>rows s. sort_values' (concat (other_frames osheets)) = Inr rows
         \<and> (\<forall>row \<in> set rows. \<exists>d. normalize_date (o_date row) = Inr d)
         \<and> other_loop \<lparr>persistent = otbl, pending = []\<rparr> rows 0 0 = Inr (s, a', u')
         \<and> commit s = Inr otbl' \<and> a' + u' = length rows))"
proof (intro conjI impI)
  assume "snd (import_daily_records sort_values tbl sheets) = Inl err"
  then show "fst (import_daily_records sort_values tbl sheets) = tbl"
    unfolding import_daily_records_def by (rule run_import_rollback)
next
  assume "snd (import_other_expenses sort_values' otbl osheets) = Inl err"
  then show "fst (import_other_expenses sort_values' otbl osheets) = otbl"
    unfolding import_other_expenses_def by (rule run_import_rollback)
next
  assume h: "sort_values (concat (daily_frames sheets)) = Inr combined
        \<and> (\<exists>row \<in> set combined. normalize_date (f_date row) = Inl err)"
  then have e: "err = ValueError" using normalize_date_error by blast
  from h have "daily_loop \<lparr>persistent = tbl, pending = []\<rparr> combined 0 0 = Inl ValueError"
    by (intro daily_loop_fail) blast
  with h e show "import_daily_records sort_values tbl sheets = (tbl, Inl err)"
    by (simp add: import_daily_records_def run_import_def)
next
  assume h: "sort_values' (concat (other_frames osheets)) = Inr ocombined
        \<and> (\<exists>row \<in> set ocombined. normalize_date (o_date row) = Inl err)"
  then have e: "err = ValueError" using normalize_date_error by blast
  from h have "other_loop \<lparr>persistent = otbl, pending = []\<rparr> ocombined 0 0 = Inl ValueError"
    by (intro other_loop_fail) blast
  with h e show "import_other_expenses sort_values' otbl osheets = (otbl, Inl err)"
    by (simp add: import_other_expenses_def run_import_def)
next
  assume "import_daily_records sort_values tbl sheets = (tbl', Inr (a, u))"
  then obtain rows s where r: "sort_values (concat (daily_frames sheets)) = Inr rows"
    "daily_loop \<lparr>persistent = tbl, pending = []\<rparr> rows 0 0 = Inr (s, a, u)" "commit s = Inr tbl'"
    unfolding import_daily_records_def by (rule run_import_success)
  have "\<forall>row \<in> set rows. \<exists>d. normalize_date (f_date row) = Inr d"
  proof (rule ccontr)
    assume "\<not> ?thesis"
    then have "\<exists>row \<in> set rows. \<exists>err. normalize_date (f_date row) = Inl err"
      by (metis sum.exhaust)
    from daily_loop_fail[OF this] r(2) show False by simp
  qed
  moreover from daily_loop_count[OF r(2)] have "a + u = length rows" by simp
  ultimately show "\<exists>rows s. sort_values (concat (daily_frames sheets)) = Inr rows
         \<and> (\<forall>row \<in> set rows. \<exists>d. normalize_date (f_date row) = Inr d)
         \<and> daily_loop \<lparr>persistent = tbl, pending = []\<rparr> rows 0 0 = Inr (s, a, u)
         \<and> commit s = Inr tbl' \<and> a + u = length rows" using r by blast
next
  assume "import_other_expenses sort_values' otbl osheets = (otbl', Inr (a', u'))"
  then obtain rows s where r: "sort_values' (concat (other_frames osheets)) = Inr rows"
    "other_loop \<lparr>persistent = otbl, pending = []\<rparr> rows 0 0 = Inr (s, a', u')" "commit s = Inr otbl'"
    unfolding import_other_expenses_def by (rule run_import_success)
  have "\<forall>row \<in> set rows. \<exists>d. normalize_date (o_date row) = Inr d"
  proof (rule ccontr)
    assume "\<not> ?thesis"
    then have "\<exists>row \<in> set rows. \<exists>err. normalize_date (o_date row) = Inl err"
      by (metis sum.exhaust)
    from other_loop_fail[OF this] r(2) show False by simp
  qed
  moreover from other_loop_count[OF r(2)] have "a' + u' = length rows" by simp
  ultimately show "\<exists>rows s. sort_values' (concat (other_frames osheets)) = Inr rows
         \<and> (\<forall>row \<in> set rows. \<exists>d. normalize_date (o_date row) = Inr d)
         \<and> other_loop \<lparr>persistent = otbl, pending = []\<rparr> rows 0 0 = Inr (s, a', u')
         \<and> commit s = Inr otbl' \<and> a' + u' = length rows" using r by blast
qed

text \<open>A failing batch on a table that holds a record, and a batch that succeeds, for
  both importers.\<close>

theorem import_is_atomic_witness:
  "snd (import_daily_records Inr [ex_record] [[ex_row], [ex_bad_row]]) = Inl ValueError
   \<and> fst (import_daily_records Inr [ex_record] [[ex_row], [ex_bad_row]]) = [ex_record]
   \<and> (\<exists>row \<in> set (concat (daily_frames [[ex_row], [ex_bad_row]])).
         normalize_date (f_date row) = Inl ValueError)
   \<and> import_daily_records Inr [ex_record] [[ex_row], [ex_bad_row]] = ([ex_record], Inl ValueError)
   \<and> import_daily_records Inr [] [[ex_row]] = ([ex_record], Inr (1, 0))
   \<and> snd (import_other_expenses Inr [ex_other] [[ex_other_row], [ex_bad_other_row]])
        = Inl ValueError
   \<and> fst (import_other_expenses Inr [ex_other] [[ex_other_row], [ex_bad_other_row]])
        = [ex_other]
   \<and> (\<exists>row \<in> set (concat (other_frames [[ex_other_row], [ex_bad_other_row]])).
         normalize_date (o_date row) = Inl ValueError)
   \<and> import_other_expenses Inr [] [[ex_other_row]] = ([ex_other], Inr (1, 0))"
proof -
  have f1: "snd (import_daily_records Inr [ex_record] [[ex_row], [ex_bad_row]]) = Inl ValueError"
    by code_simp
  have b1: "normalize_date (f_date (prepare_daily_row ex_bad_row)) = Inl ValueError"
    by code_simp
  have m1: "prepare_daily_row ex_bad_row \<in> set (concat (daily_frames [[ex_row], [ex_bad_row]]))"
    by (simp add: daily_frames_def)
  from b1 m1 have e1: "\<exists>row \<in> set (concat (daily_frames [[ex_row], [ex_bad_row]])).
         normalize_date (f_date row) = Inl ValueError" by blast
  have g1: "import_daily_records Inr [] [[ex_row]] = ([ex_record], Inr (1, 0))" by code_simp
  have f2: "snd (import_other_expenses Inr [ex_other] [[ex_other_row], [ex_bad_other_row]])
        = Inl ValueError" by code_simp
  have b2: "normalize_date (o_date (fill_other_row ex_bad_other_row)) = Inl ValueError"
    by code_simp
  have m2: "fill_other_row ex_bad_other_row
      \<in> set (concat (other_frames [[ex_other_row], [ex_bad_other_row]]))"
    by (simp add: other_frames_def prepare_other_sheet_def fill_other_row_def fillna_def
        ex_bad_other_row_def)
  from b2 m2 have e2: "\<exists>row \<in> set (concat (other_frames [[ex_other_row], [ex_bad_other_row]])).
         normalize_date (o_date row) = Inl ValueError" by blast
  have g2: "import_other_expenses Inr [] [[ex_other_row]] = ([ex_other], Inr (1, 0))"
    by code_simp
  note bad = import_is_atomic[of Inr "[ex_record]" "[[ex_row], [ex_bad_row]]" ValueError
      "concat (daily_frames [[ex_row], [ex_bad_row]])" "[]" 0 0
      Inr "[ex_other]" "[[ex_other_row], [ex_bad_other_row]]"
      "concat (other_frames [[ex_other_row], [ex_bad_other_row]])" "[]" 0 0]
  note good = import_is_atomic[of Inr "[]" "[[ex_row]]" ValueError
      "concat (daily_frames [[ex_row]])" "[ex_record]" 1 0
      Inr "[]" "[[ex_other_row]]"
      "concat (other_frames [[ex_other_row]])" "[ex_other]" 1 0]
  from bad f1 have r1: "fst (import_daily_records Inr [ex_record] [[ex_row], [ex_bad_row]])
      = [ex_record]" by blast
  from bad e1 have r2: "import_daily_records Inr [ex_record] [[ex_row], [ex_bad_row]]
      = ([ex_record], Inl ValueError)" by blast
  from bad f2 have r3: "fst (import_other_expenses Inr [ex_other] [[ex_other_row], [ex_bad_other_row]])
        = [ex_other]" by blast
  from good g1 have r4: "\<exists>rows s. Inr (concat (daily_frames [[ex_row]])) = Inr rows
         \<and> (\<forall>row \<in> set rows. \<exists>d. normalize_date (f_date row) = Inr d)
         \<and> daily_loop \<lparr>persistent = [], pending = []\<rparr> rows 0 0 = Inr (s, 1, 0)
         \<and> commit s = Inr [ex_record] \<and> (1::nat) + 0 = length rows" by blast
  from f1 r1 e1 r2 g1 f2 r3 e2 g2 show ?thesis by (intro conjI)
qed



text \<open>A sheet row without an earnings cell: the net is computed before the frame is
  filled, is NaN, and becomes 0, although the stored fields give -100.\<close>

lemma import_missing_earnings_example:
  "import_daily_records Inr []
     [[\<lparr>x_date = RStr ''2025-01-01'', x_ride_count = Some 0, x_earnings = None,
        x_cng_expenses = Some 100, x_driver_pass_subscription = None,
        x_indrive_topup = None, x_odometer_start = None, x_odometer_end = None\<rparr>]]
   = ([\<lparr>rid = Some 1, date = \<lparr>year = 2025, month = 1, day = 1\<rparr>, ride_count = 0,
        earnings = 0, cng_expenses = 100, driver_pass_subscription = Some 0,
        indrive_topup = Some 0, odometer_start = None, odometer_end = None,
        daily_net = 0\<rparr>], Inr (1, 0))"
  by code_simp


text \<open>C8. An odometer value of zero is stored as unset and a positive one as given: for
  the row \<open>add_record\<close> writes, and for every record the importer writes, with respect to
  a sheet row of its date.\<close>

theorem odometer_zero_unset:
  assumes "distinct (map date tbl)"
  shows "(add_record tbl d rc e c dp ind os oe = (tbl1, ok) \<longrightarrow>
      ok \<and> (\<exists>r \<in> set tbl1. date r = d)
      \<and> (\<forall>r \<in> set tbl1. date r = d \<longrightarrow>
            (os = 0 \<longrightarrow> odometer_start r = None) \<and> (0 < os \<longrightarrow> odometer_start r = Some os)
            \<and> (oe = 0 \<longrightarrow> odometer_end r = None) \<and> (0 < oe \<longrightarrow> odometer_end r = Some oe)))
   \<and> ((\<forall>xs ys. sort_values xs = Inr ys \<longrightarrow> set ys = set xs)
       \<and> import_daily_records sort_values tbl sheets = (tbl2, Inr (a, u)) \<longrightarrow>
      (\<forall>x \<in> set (concat sheets). \<exists>r \<in> set tbl2. normalize_date (x_date x) = Inr (date r))
      \<and> (\<forall>r \<in> set tbl2.
           (\<exists>x \<in> set (concat sheets). normalize_date (x_date x) = Inr (date r)) \<longrightarrow>
           (\<exists>x \<in> set (concat sheets). normalize_date (x_date x) = Inr (date r)
              \<and> (x_odometer_start x = Some 0 \<longrightarrow> odometer_start r = None)
              \<and> (\<forall>v. 0 < v \<and> x_odometer_start x = Some v \<longrightarrow> odometer_start r = Some v)
              \<and> (x_odometer_end x = Some 0 \<longrightarrow> odometer_end r = None)
              \<and> (\<forall>v. 0 < v \<and> x_odometer_end x = Some v \<longrightarrow> odometer_end r = Some v))))"
proof (intro conjI impI)
  assume ar: "add_record tbl d rc e c dp ind os oe = (tbl1, ok)"
  from add_record_after[OF assms ar] show "ok" by simp
  from add_record_after[OF assms ar] show "\<exists>r \<in> set tbl1. date r = d" by auto
  show "\<forall>r \<in> set tbl1. date r = d \<longrightarrow>
            (os = 0 \<longrightarrow> odometer_start r = None) \<and> (0 < os \<longrightarrow> odometer_start r = Some os)
            \<and> (oe = 0 \<longrightarrow> odometer_end r = None) \<and> (0 < oe \<longrightarrow> odometer_end r = Some oe)"
  proof (intro ballI impI)
    fix r assume "r \<in> set tbl1" "date r = d"
    from add_record_fields[OF assms ar this]
    show "(os = 0 \<longrightarrow> odometer_start r = None) \<and> (0 < os \<longrightarrow> odometer_start r = Some os)
            \<and> (oe = 0 \<longrightarrow> odometer_end r = None) \<and> (0 < oe \<longrightarrow> odometer_end r = Some oe)"
      by (simp add: odo_positive_def)
  qed
next
  assume h: "(\<forall>xs ys. sort_values xs = Inr ys \<longrightarrow> set ys = set xs)
       \<and> import_daily_records sort_values tbl sheets = (tbl2, Inr (a, u))"
  then have perm: "\<forall>xs ys. sort_values xs = Inr ys \<longrightarrow> set ys = set xs"
    and imp: "import_daily_records sort_values tbl sheets = (tbl2, Inr (a, u))" by blast+
  note rows = import_daily_rows[OF assms perm imp]
  from rows show "\<forall>x \<in> set (concat sheets). \<exists>r \<in> set tbl2. normalize_date (x_date x) = Inr (date r)"
    by blast
  show "\<forall>r \<in> set tbl2.
           (\<exists>x \<in> set (concat sheets). normalize_date (x_date x) = Inr (date r)) \<longrightarrow>
           (\<exists>x \<in> set (concat sheets). normalize_date (x_date x) = Inr (date r)
              \<and> (x_odometer_start x = Some 0 \<longrightarrow> odometer_start r = None)
              \<and> (\<forall>v. 0 < v \<and> x_odometer_start x = Some v \<longrightarrow> odometer_start r = Some v)
              \<and> (x_odometer_end x = Some 0 \<longrightarrow> odometer_end r = None)
              \<and> (\<forall>v. 0 < v \<and> x_odometer_end x = Some v \<longrightarrow> odometer_end r = Some v))"
  proof (intro ballI impI)
    fix r assume r: "r \<in> set tbl2"
      and hit: "\<exists>x \<in> set (concat sheets). normalize_date (x_date x) = Inr (date r)"
    have "if \<exists>x \<in> set (concat sheets). normalize_date (x_date x) = Inr (date r)
          then \<exists>x \<in> set (concat sheets). stored_from r (prepare_daily_row x)
          else r \<in> set tbl"
      by (rule rows[THEN conjunct2, rule_format, OF r])
    with hit have "\<exists>x \<in> set (concat sheets). stored_from r (prepare_daily_row x)"
      by (simp only: if_True)
    then obtain x where x: "x \<in> set (concat sheets)" "stored_from r (prepare_daily_row x)"
      by blast
    from x(2) have "normalize_date (x_date x) = Inr (date r)
              \<and> (x_odometer_start x = Some 0 \<longrightarrow> odometer_start r = None)
              \<and> (\<forall>v. 0 < v \<and> x_odometer_start x = Some v \<longrightarrow> odometer_start r = Some v)
              \<and> (x_odometer_end x = Some 0 \<longrightarrow> odometer_end r = None)
              \<and> (\<forall>v. 0 < v \<and> x_odometer_end x = Some v \<longrightarrow> odometer_end r = Some v)"
      by (auto simp: stored_from_def prepare_daily_row_def Let_def fillna_def float_if_def)
    with x(1) show "\<exists>x \<in> set (concat sheets). normalize_date (x_date x) = Inr (date r)
              \<and> (x_odometer_start x = Some 0 \<longrightarrow> odometer_start r = None)
              \<and> (\<forall>v. 0 < v \<and> x_odometer_start x = Some v \<longrightarrow> odometer_start r = Some v)
              \<and> (x_odometer_end x = Some 0 \<longrightarrow> odometer_end r = None)
              \<and> (\<forall>v. 0 < v \<and> x_odometer_end x = Some v \<longrightarrow> odometer_end r = Some v)"
      by blast
  qed
qed

text \<open>A manual write and an imported row with a start reading of 0 and an end reading of
  1290.\<close>

theorem odometer_zero_unset_witness:
  "distinct (map date ([] :: DailyRecord list))
   \<and> add_record [] \<lparr>year = 2025, month = 1, day = 1\<rparr> 5 1000 200 0 (1 / 2) 0 1290
       = ([ex_record], True)
   \<and> import_daily_records Inr [] [[ex_row]] = ([ex_record], Inr (1, 0))
   \<and> x_odometer_start ex_row = Some 0 \<and> x_odometer_end ex_row = Some 1290
   \<and> odometer_start ex_record = None \<and> odometer_end ex_record = Some 1290"
proof -
  have d: "distinct (map date ([] :: DailyRecord list))" by simp
  have a: "add_record [] \<lparr>year = 2025, month = 1, day = 1\<rparr> 5 1000 200 0 (1 / 2) 0 1290
       = ([ex_record], True)" by code_simp
  have p: "\<forall>xs ys. (Inr xs :: error + daily_frame_row list) = Inr ys \<longrightarrow> set ys = set xs"
    by simp
  have i: "import_daily_records Inr [] [[ex_row]] = ([ex_record], Inr (1, 0))" by code_simp
  have o: "x_odometer_start ex_row = Some 0 \<and> x_odometer_end ex_row = Some 1290"
    by (simp add: ex_row_def)
  note t = odometer_zero_unset[OF d, of "\<lparr>year = 2025, month = 1, day = 1\<rparr>" 5 1000 200 0
      "1 / 2" 0 1290 "[ex_record]" True Inr "[[ex_row]]" "[ex_record]" 1 0]
  from t a have "\<forall>r \<in> set [ex_record]. date r = \<lparr>year = 2025, month = 1, day = 1\<rparr> \<longrightarrow>
            ((0::rat) = 0 \<longrightarrow> odometer_start r = None) \<and> ((0::rat) < 0 \<longrightarrow> odometer_start r = Some 0)
            \<and> ((1290::rat) = 0 \<longrightarrow> odometer_end r = None)
            \<and> ((0::rat) < 1290 \<longrightarrow> odometer_end r = Some 1290)"
    by blast
  moreover have "date ex_record = \<lparr>year = 2025, month = 1, day = 1\<rparr>"
    by (simp add: ex_record_def)
  ultimately have c: "odometer_start ex_record = None \<and> odometer_end ex_record = Some 1290"
    by simp
  from d a i o c show ?thesis by (intro conjI) simp_all
qed

subsection \<open>Date normalization\<close>




end
